theory Spec2Isabelle
  imports Main "HOL-Library.List_Lexorder" "HOL-Library.Multiset" "HOL-Library.Code_Target_Nat"
begin

section \<open>Python values\<close>

text \<open>
  A Python \<open>bytes\<close> value is a list of 8-bit characters. A Python \<open>str\<close> is the list of
  its code points, each below \<open>0x110000\<close>; two strs compare as Python compares them,
  lexicographically by code point. \<open>ascii\<close> gives the str of a literal of the source, all
  of which are ASCII. A file name, an environment variable or a line of input that is not
  UTF-8 reaches the program as a str with lone surrogates (the \<open>surrogateescape\<close> error
  handler), and \<open>s.encode()\<close> raises \<open>UnicodeEncodeError\<close> on such a str.
\<close>

type_synonym bytes = string

type_synonym str = "nat list"

definition ascii :: "string \<Rightarrow> str" where
  "ascii s = map of_char s"

datatype errno = ENOENT | EEXIST | EACCES | EISDIR | ENOTDIR

datatype error =
    OSError errno
  | ValueError
  | UnicodeEncodeError
  | UnboundLocalError
  | AttributeError
  | KeyError str

text \<open>What a call evaluates to when the function has no \<open>return\<close> statement.\<close>

datatype pyvalue = PyNone | PyStr str

subsection \<open>\<open>str.encode()\<close>: UTF-8, strict\<close>

definition surrogate :: "nat \<Rightarrow> bool" where
  "surrogate c = (0xD800 \<le> c \<and> c < 0xE000)"

definition utf8_codepoint :: "nat \<Rightarrow> bytes" where
  "utf8_codepoint c =
     (if c < 0x80 then [char_of c]
      else if c < 0x800 then [char_of (0xC0 + c div 64), char_of (0x80 + c mod 64)]
      else if c < 0x10000
      then [char_of (0xE0 + c div 4096), char_of (0x80 + c div 64 mod 64),
            char_of (0x80 + c mod 64)]
      else [char_of (0xF0 + c div 262144), char_of (0x80 + c div 4096 mod 64),
            char_of (0x80 + c div 64 mod 64), char_of (0x80 + c mod 64)])"

definition encode :: "str \<Rightarrow> error + bytes" where
  "encode s =
     (if list_ex surrogate s then Inl UnicodeEncodeError
      else Inr (concat (map utf8_codepoint s)))"

subsection \<open>\<open>str(n)\<close> and \<open>"%d" % n\<close>\<close>

text \<open>
  The decimal digits of a number, as ASCII characters: they are the str that \<open>str(n)\<close>
  returns (under \<open>ascii\<close>) and the bytes that \<open>str(n).encode()\<close> returns.
\<close>

definition digit_char :: "nat \<Rightarrow> char" where
  "digit_char n = ''0123456789'' ! n"

fun str_of_nat :: "nat \<Rightarrow> string" where
  "str_of_nat n =
     (if n < 10 then [digit_char n] else str_of_nat (n div 10) @ [digit_char (n mod 10)])"

declare str_of_nat.simps [simp del]

definition str_of_int :: "int \<Rightarrow> string" where
  "str_of_int i = (if i < 0 then ''-'' @ str_of_nat (nat (- i)) else str_of_nat (nat i))"



subsection \<open>\<open>str.join\<close>\<close>

fun str_join :: "str \<Rightarrow> str list \<Rightarrow> str" where
  "str_join s [] = []"
| "str_join s [x] = x"
| "str_join s (x # y # r) = x @ s @ str_join s (y # r)"

subsection \<open>\<open>str.endswith\<close>\<close>

definition endswith :: "str \<Rightarrow> str \<Rightarrow> bool" where
  "endswith s suf = (length suf \<le> length s \<and> drop (length s - length suf) s = suf)"

subsection \<open>\<open>hashlib\<close>: the hexadecimal form of a digest\<close>

text \<open>
  \<open>hashlib.sha1(content)\<close> is a function of the library, not of the repository: the
  model takes it as the parameter \<open>sha1\<close>, from the bytes hashed to the raw digest.
  \<open>hexdigest()\<close> returns a str: each byte of the digest as two lowercase hexadecimal
  digits, which are the characters \<open>hexchars\<close>.
\<close>

definition hexdigit :: "nat \<Rightarrow> char" where
  "hexdigit n = ''0123456789abcdef'' ! n"

definition hexbyte :: "char \<Rightarrow> string" where
  "hexbyte c = [hexdigit (of_char c div 16), hexdigit (of_char c mod 16)]"

definition hexchars :: "bytes \<Rightarrow> string" where
  "hexchars d = concat (map hexbyte d)"

definition hexdigest :: "bytes \<Rightarrow> str" where
  "hexdigest d = ascii (hexchars d)"

subsection \<open>\<open>bytearray.fromhex\<close>\<close>

text \<open>
  CPython (3.7 and later) reads the str as pairs of hexadecimal digits, of either case,
  and skips any run of ASCII whitespace that stands before a pair or at the end.
  Anything else raises \<open>ValueError\<close>. The number of pairs is not checked.
\<close>

definition hexval :: "nat \<Rightarrow> nat option" where
  "hexval c =
     (if 48 \<le> c \<and> c \<le> 57 then Some (c - 48)
      else if 97 \<le> c \<and> c \<le> 102 then Some (c - 87)
      else if 65 \<le> c \<and> c \<le> 70 then Some (c - 55)
      else None)"

definition isspace :: "nat \<Rightarrow> bool" where
  "isspace c = (c = 32 \<or> (9 \<le> c \<and> c \<le> 13))"

fun fromhex :: "str \<Rightarrow> error + bytes" where
  "fromhex [] = Inr []"
| "fromhex [c] = (if isspace c then Inr [] else Inl ValueError)"
| "fromhex (c # d # r) =
     (if isspace c then fromhex (d # r)
      else case hexval c of
        None \<Rightarrow> Inl ValueError
      | Some hi \<Rightarrow>
          (case hexval d of
             None \<Rightarrow> Inl ValueError
           | Some lo \<Rightarrow>
               (case fromhex r of
                  Inl e \<Rightarrow> Inl e
                | Inr bs \<Rightarrow> Inr (char_of (16 * hi + lo) # bs))))"

subsection \<open>\<open>os.path\<close> (posixpath)\<close>

definition sep :: nat where
  "sep = 47"

definition startswith_sep :: "str \<Rightarrow> bool" where
  "startswith_sep b = (case b of [] \<Rightarrow> False | c # _ \<Rightarrow> c = sep)"

text \<open>\<open>os.path.join(a, *p)\<close>: a component that starts with the separator restarts the path.\<close>

fun path_join :: "str \<Rightarrow> str list \<Rightarrow> str" where
  "path_join path [] = path"
| "path_join path (b # p) =
     path_join (if startswith_sep b then b
                else if path = [] \<or> last path = sep then path @ b
                else path @ [sep] @ b) p"

text \<open>
  \<open>os.path.dirname(p)\<close>: the part up to and including the last separator, with its
  trailing separators stripped unless it consists of separators only.
\<close>

definition rstrip_sep :: "str \<Rightarrow> str" where
  "rstrip_sep s = rev (dropWhile (\<lambda>c. c = sep) (rev s))"

definition os_dirname :: "str \<Rightarrow> str" where
  "os_dirname p =
     (let head = rev (dropWhile (\<lambda>c. c \<noteq> sep) (rev p)) in
      if head \<noteq> [] \<and> head \<noteq> replicate (length head) sep then rstrip_sep head
      else head)"

definition os_basename :: "str \<Rightarrow> str" where
  "os_basename p = rev (takeWhile (\<lambda>c. c \<noteq> sep) (rev p))"

subsection \<open>\<open>datetime.strftime(t, "%s %z")\<close>\<close>

text \<open>
  Of a \<open>datetime\<close> the program only prints two things. \<open>%s\<close> is handed to the
  platform's \<open>strftime\<close>, which prints a number of seconds since the epoch:
  \<open>posix_seconds\<close> is that number. \<open>%z\<close> is expanded by Python itself from
  \<open>utcoffset()\<close>: \<open>utcoffset\<close> is the offset in microseconds, and \<open>None\<close> for a naive
  datetime, one that carries no time zone (as \<open>datetime.now()\<close> returns).
\<close>

record datetime =
  posix_seconds :: int
  utcoffset :: "int option"

definition pad2 :: "nat \<Rightarrow> string" where
  "pad2 n = (if n < 10 then ''0'' @ str_of_nat n else str_of_nat n)"

definition pad6 :: "nat \<Rightarrow> string" where
  "pad6 n = replicate (6 - length (str_of_nat n)) (CHR ''0'') @ str_of_nat n"

definition format_utcoffset :: "int option \<Rightarrow> string" where
  "format_utcoffset off =
     (case off of
        None \<Rightarrow> []
      | Some us \<Rightarrow>
          (let sign = (if us < 0 then ''-'' else ''+'');
               a = nat (abs us);
               microseconds = a mod 1000000;
               total = a div 1000000;
               seconds = total mod 60;
               minutes = (total div 60) mod 60;
               hours = total div 3600
           in if microseconds \<noteq> 0
              then sign @ pad2 hours @ pad2 minutes @ pad2 seconds @ ''.'' @ pad6 microseconds
              else if seconds \<noteq> 0 then sign @ pad2 hours @ pad2 minutes @ pad2 seconds
              else sign @ pad2 hours @ pad2 minutes))"

definition strftime_s_z :: "datetime \<Rightarrow> str" where
  "strftime_s_z t =
     ascii (str_of_int (posix_seconds t) @ '' '' @ format_utcoffset (utcoffset t))"

section \<open>The content model\<close>

record Author =
  Author_name :: str
  Author_email :: str
  Author_time :: datetime

definition Author_serialize :: "Author \<Rightarrow> str" where
  "Author_serialize a =
     Author_name a @ ascii '' '' @ Author_email a @ ascii '' '' @ strftime_s_z (Author_time a)"

record Entry =
  Entry_name :: str
  Entry_id :: str

text \<open>
  The three classes of objects. \<open>obj_id\<close> is the attribute \<open>id\<close>: \<open>Blob.__init__\<close>
  sets it to the empty string, a \<open>Commit\<close> and a \<open>Tree\<close> have none until they are stored.
\<close>

datatype content =
    Blob (data: bytes)
  | Commit (tree: str) (author: Author) (message: str)
  | Tree (entries: "Entry list")

record object =
  body :: content
  obj_id :: "str option"

definition new_Blob :: "bytes \<Rightarrow> object" where
  "new_Blob d = \<lparr>body = Blob d, obj_id = Some []\<rparr>"

definition new_Commit :: "str \<Rightarrow> Author \<Rightarrow> str \<Rightarrow> object" where
  "new_Commit t a m = \<lparr>body = Commit t a m, obj_id = None\<rparr>"

definition new_Tree :: "Entry list \<Rightarrow> object" where
  "new_Tree es = \<lparr>body = Tree es, obj_id = None\<rparr>"

definition get_id :: "object \<Rightarrow> error + str" where
  "get_id ob = (case obj_id ob of None \<Rightarrow> Inl AttributeError | Some i \<Rightarrow> Inr i)"

fun obj_type :: "content \<Rightarrow> bytes" where
  "obj_type (Blob _) = ''blob''"
| "obj_type (Commit _ _ _) = ''commit''"
| "obj_type (Tree _) = ''tree''"

definition MODE :: bytes where
  "MODE = ''100644''"

text \<open>The text that \<open>Commit.serialize\<close> joins, before it is encoded.\<close>

definition commit_lines :: "str \<Rightarrow> Author \<Rightarrow> str \<Rightarrow> str" where
  "commit_lines t a m =
     str_join [10]
       [ascii ''tree '' @ t,
        ascii ''author '' @ Author_serialize a,
        ascii ''committer '' @ Author_serialize a,
        [],
        m]"

definition Commit_serialize :: "str \<Rightarrow> Author \<Rightarrow> str \<Rightarrow> error + bytes" where
  "Commit_serialize t a m = encode (commit_lines t a m)"

text \<open>One turn of the loop of \<open>Tree.serialize\<close>: the bytes of one entry.\<close>

definition entry_output :: "Entry \<Rightarrow> error + bytes" where
  "entry_output entry =
     (case encode (Entry_name entry) of
        Inl e \<Rightarrow> Inl e
      | Inr name_bytes \<Rightarrow>
          (case fromhex (Entry_id entry) of
             Inl e \<Rightarrow> Inl e
           | Inr raw \<Rightarrow> Inr (MODE @ '' '' @ name_bytes @ [CHR 0x00] @ raw)))"

text \<open>The loop: the first entry that raises ends it.\<close>

fun entry_outputs :: "Entry list \<Rightarrow> error + bytes list" where
  "entry_outputs [] = Inr []"
| "entry_outputs (entry # rest) =
     (case entry_output entry of
        Inl e \<Rightarrow> Inl e
      | Inr out \<Rightarrow> (case entry_outputs rest of Inl e \<Rightarrow> Inl e | Inr outs \<Rightarrow> Inr (out # outs)))"

text \<open>\<open>sorted(..., key=...)\<close> is a stable sort, as \<open>sort_key\<close> is.\<close>

definition Tree_serialize :: "Entry list \<Rightarrow> error + bytes" where
  "Tree_serialize es =
     (case entry_outputs (sort_key Entry_name es) of
        Inl e \<Rightarrow> Inl e
      | Inr outs \<Rightarrow> Inr (concat outs))"

fun serialize :: "content \<Rightarrow> error + bytes" where
  "serialize (Blob d) = Inr d"
| "serialize (Commit t a m) = Commit_serialize t a m"
| "serialize (Tree es) = Tree_serialize es"

section \<open>The file system\<close>

text \<open>
  The part of the file system the program touches: the directories, the regular files
  with their contents (the first pair of a path is the file), and the directories in
  which the process may not create or remove an entry. Paths are compared as the program
  builds them: a path is built from strs that the operating system handed to the program
  (the current directory, the names of \<open>os.listdir\<close>), which the file-system encoding
  turns back into the bytes they came from, so that a call does not fail on the encoding
  of its path. Each operation returns the \<open>errno\<close> of the failing system call, or the
  file system after the call.
\<close>

record filesystem =
  dirs :: "str list"
  files :: "(str \<times> bytes) list"
  denied :: "str list"

definition file_content :: "filesystem \<Rightarrow> str \<Rightarrow> bytes option" where
  "file_content fs p = map_of (files fs) p"

text \<open>
  The prefixes of a path that end before a separator: what the kernel walks through
  before it reaches the last component. When one of them is a regular file the call
  fails with \<open>ENOTDIR\<close>.
\<close>

fun ancestors_from :: "str \<Rightarrow> str \<Rightarrow> str list" where
  "ancestors_from acc [] = []"
| "ancestors_from acc (c # cs) =
     (if c = sep \<and> acc \<noteq> [] then acc # ancestors_from (acc @ [c]) cs
      else ancestors_from (acc @ [c]) cs)"

definition through_file :: "filesystem \<Rightarrow> str \<Rightarrow> bool" where
  "through_file fs p = list_ex (\<lambda>a. file_content fs a \<noteq> None) (ancestors_from [] p)"

definition ends_with_sep :: "str \<Rightarrow> bool" where
  "ends_with_sep p = (p \<noteq> [] \<and> last p = sep)"

definition os_mkdir :: "filesystem \<Rightarrow> str \<Rightarrow> errno + filesystem" where
  "os_mkdir fs p =
     (if through_file fs p then Inl ENOTDIR
      else if os_dirname p \<notin> set (dirs fs) then Inl ENOENT
      else if p \<in> set (dirs fs) \<or> file_content fs p \<noteq> None then Inl EEXIST
      else if os_dirname p \<in> set (denied fs) then Inl EACCES
      else Inr (fs\<lparr>dirs := p # dirs fs\<rparr>))"

text \<open>\<open>open(p, 'a+b')\<close> and \<open>open(p, 'a+')\<close>: the file is created when it is missing.\<close>

definition os_open_append :: "filesystem \<Rightarrow> str \<Rightarrow> errno + filesystem" where
  "os_open_append fs p =
     (if through_file fs p then Inl ENOTDIR
      else if p \<in> set (dirs fs) \<or> ends_with_sep p then Inl EISDIR
      else if file_content fs p \<noteq> None then Inr fs
      else if os_dirname p \<notin> set (dirs fs) then Inl ENOENT
      else if os_dirname p \<in> set (denied fs) then Inl EACCES
      else Inr (fs\<lparr>files := (p, []) # files fs\<rparr>))"

text \<open>Writing to a file opened for appending, and closing it.\<close>

definition os_write :: "filesystem \<Rightarrow> str \<Rightarrow> bytes \<Rightarrow> filesystem" where
  "os_write fs p d =
     (case file_content fs p of
        None \<Rightarrow> fs
      | Some old \<Rightarrow> fs\<lparr>files := (p, old @ d) # files fs\<rparr>)"

text \<open>\<open>os.rename(src, dst)\<close> of a regular file.\<close>

definition os_rename :: "filesystem \<Rightarrow> str \<Rightarrow> str \<Rightarrow> errno + filesystem" where
  "os_rename fs src dst =
     (if through_file fs src \<or> through_file fs dst then Inl ENOTDIR
      else case file_content fs src of
        None \<Rightarrow> Inl ENOENT
      | Some c \<Rightarrow>
          if ends_with_sep dst then Inl ENOTDIR
          else if dst \<in> set (dirs fs) then Inl EISDIR
          else if os_dirname dst \<notin> set (dirs fs) then Inl ENOENT
          else if os_dirname src \<in> set (denied fs) \<or> os_dirname dst \<in> set (denied fs)
          then Inl EACCES
          else Inr (fs\<lparr>files := (dst, c) # filter (\<lambda>(q, _). q \<noteq> src \<and> q \<noteq> dst) (files fs)\<rparr>))"

text \<open>\<open>open(p, "rb").read()\<close>\<close>

definition os_read :: "filesystem \<Rightarrow> str \<Rightarrow> errno + bytes" where
  "os_read fs p =
     (if through_file fs p then Inl ENOTDIR
      else if p \<in> set (dirs fs) then Inl EISDIR
      else case file_content fs p of None \<Rightarrow> Inl ENOENT | Some c \<Rightarrow> Inr c)"

text \<open>\<open>os.listdir(p)\<close>: the names of the entries of the directory, in no promised order.\<close>

definition os_listdir :: "filesystem \<Rightarrow> str \<Rightarrow> errno + str list" where
  "os_listdir fs p =
     (if p \<in> set (dirs fs)
      then Inr (remdups (map os_basename
                  (filter (\<lambda>q. q \<noteq> p \<and> os_dirname q = p) (dirs fs @ map fst (files fs)))))
      else Inl ENOENT)"

section \<open>The database\<close>

text \<open>
  \<open>zlib.compress\<close> is the parameter \<open>zlib_compress\<close>, and the six characters that
  \<open>random.choices\<close> draws are the argument \<open>rnd\<close>. A call that raises returns the
  exception together with the file system (and, for \<open>store\<close>, the object) as they are at
  that moment.
\<close>

definition generate_temp_name :: "str \<Rightarrow> str" where
  "generate_temp_name rnd = ascii ''tmp_obj_'' @ rnd"

definition object_path :: "str \<Rightarrow> str \<Rightarrow> str" where
  "object_path pathname i = path_join pathname [take 2 i, drop 2 i]"

definition temp_path :: "str \<Rightarrow> str \<Rightarrow> str \<Rightarrow> str" where
  "temp_path pathname rnd i =
     path_join (os_dirname (object_path pathname i)) [generate_temp_name rnd]"

text \<open>
  The \<open>try\<close> statement of \<open>write_object\<close>. It returns whether the name \<open>f\<close> is bound
  afterwards: the handler binds it only when \<open>errno\<close> is \<open>ENOENT\<close>, and otherwise
  ends without raising.
\<close>

definition open_temp ::
  "str \<Rightarrow> str \<Rightarrow> filesystem \<Rightarrow> (error \<times> filesystem) + (bool \<times> filesystem)"
where
  "open_temp dirname tmp fs =
     (case os_open_append fs tmp of
        Inr fs1 \<Rightarrow> Inr (True, fs1)
      | Inl e \<Rightarrow>
          if e = ENOENT
          then (case os_mkdir fs dirname of
                  Inl e1 \<Rightarrow> Inl (OSError e1, fs)
                | Inr fs1 \<Rightarrow>
                    (case os_open_append fs1 tmp of
                       Inl e2 \<Rightarrow> Inl (OSError e2, fs1)
                     | Inr fs2 \<Rightarrow> Inr (True, fs2)))
          else Inr (False, fs))"

definition write_object ::
  "(bytes \<Rightarrow> bytes) \<Rightarrow> str \<Rightarrow> str \<Rightarrow> str \<Rightarrow> bytes \<Rightarrow> filesystem
     \<Rightarrow> (error \<times> filesystem) + filesystem"
where
  "write_object zlib_compress pathname rnd i content fs =
     (let obj_path = object_path pathname i;
          dirname = os_dirname obj_path;
          tmp = path_join dirname [generate_temp_name rnd]
      in case open_temp dirname tmp fs of
           Inl failure \<Rightarrow> Inl failure
         | Inr (bound, fs1) \<Rightarrow>
             (let compressed = zlib_compress content
              in if \<not> bound then Inl (UnboundLocalError, fs1)
                 else (let fs2 = os_write fs1 tmp compressed
                       in case os_rename fs2 tmp obj_path of
                            Inl e \<Rightarrow> Inl (OSError e, fs2)
                          | Inr fs3 \<Rightarrow> Inr fs3)))"

text \<open>The bytes that \<open>store\<close> hashes and writes.\<close>

definition frame :: "bytes \<Rightarrow> bytes \<Rightarrow> bytes" where
  "frame ty dat = ty @ '' '' @ str_of_nat (length dat) @ [CHR 0x00] @ dat"

text \<open>
  \<open>store\<close> has no \<open>return\<close> statement: a call that ends evaluates to \<open>None\<close>. The
  result is that value, the object with its \<open>id\<close> assigned, and the file system. When
  \<open>serialize\<close> raises, nothing has been hashed, assigned or written.
\<close>

definition store ::
  "(bytes \<Rightarrow> bytes) \<Rightarrow> (bytes \<Rightarrow> bytes) \<Rightarrow> str \<Rightarrow> str \<Rightarrow> object \<Rightarrow> filesystem
     \<Rightarrow> (error \<times> object \<times> filesystem) + (pyvalue \<times> object \<times> filesystem)"
where
  "store sha1 zlib_compress pathname rnd ob fs =
     (case serialize (body ob) of
        Inl e \<Rightarrow> Inl (e, ob, fs)
      | Inr dat \<Rightarrow>
          (let content = frame (obj_type (body ob)) dat;
               ob1 = ob\<lparr>obj_id := Some (hexdigest (sha1 content))\<rparr>
           in case write_object zlib_compress pathname rnd (hexdigest (sha1 content)) content fs of
                Inl (e, fs1) \<Rightarrow> Inl (e, ob1, fs1)
              | Inr fs1 \<Rightarrow> Inr (PyNone, ob1, fs1)))"

section \<open>The commands\<close>

subsection \<open>\<open>init\<close>\<close>

text \<open>
  How the process ends: its exit code and the text it handed to the two streams (the
  argument of \<open>write\<close> and of \<open>print\<close>, with the newline that \<open>print\<close> adds).
\<close>

record outcome =
  exit_code :: nat
  stdout :: str
  stderr :: str

text \<open>The loop over \<open>["objects", "refs"]\<close>; a failing \<open>mkdir\<close> ends it.\<close>

fun mkdir_each :: "str \<Rightarrow> str list \<Rightarrow> filesystem \<Rightarrow> errno option \<times> filesystem" where
  "mkdir_each git_path [] fs = (None, fs)"
| "mkdir_each git_path (p # ps) fs =
     (case os_mkdir fs (path_join git_path [p]) of
        Inl e \<Rightarrow> (Some e, fs)
      | Inr fs1 \<Rightarrow> mkdir_each git_path ps fs1)"

definition init_failed :: outcome where
  "init_failed =
     \<lparr>exit_code = 1, stdout = [], stderr = ascii ''Unable to initialize git paths''\<rparr>"

text \<open>\<open>root_path\<close> is the absolute path that \<open>os.path.abspath(args.path)\<close> returns.\<close>

definition init :: "str \<Rightarrow> filesystem \<Rightarrow> filesystem \<times> outcome" where
  "init root_path fs =
     (let git_path = path_join root_path [ascii ''.git'']
      in case os_mkdir fs git_path of
           Inl e \<Rightarrow> (fs, init_failed)
         | Inr fs1 \<Rightarrow>
             (case mkdir_each git_path [ascii ''objects'', ascii ''refs''] fs1 of
                (Some e, fs2) \<Rightarrow> (fs2, init_failed)
              | (None, fs2) \<Rightarrow>
                  (fs2, \<lparr>exit_code = 0,
                         stdout = ascii ''Initialized empty Pit repository in '' @ root_path,
                         stderr = []\<rparr>)))"

subsection \<open>\<open>commit\<close>\<close>

text \<open>
  What \<open>commit\<close> reads besides the file system: the current directory (as an absolute
  path), the environment variables, the line on standard input, the clock, and the
  characters drawn at random for the k-th temporary name.
\<close>

record environment =
  cwd :: str
  environ :: "(str \<times> str) list"
  stdin_line :: str
  now :: datetime
  random_choices :: "nat \<Rightarrow> str"

definition list_files :: "filesystem \<Rightarrow> str \<Rightarrow> error + str list" where
  "list_files fs pathname =
     (case os_listdir fs pathname of
        Inl e \<Rightarrow> Inl (OSError e)
      | Inr names \<Rightarrow>
          Inr (sort (filter (\<lambda>f. \<not> endswith f (ascii ''.git'') \<and>
                                \<not> endswith f (ascii ''.DS_Store'')) names)))"

text \<open>A relative path is opened from the current directory.\<close>

definition read_file :: "filesystem \<Rightarrow> str \<Rightarrow> str \<Rightarrow> error + bytes" where
  "read_file fs wd path =
     (case os_read fs (path_join wd [path]) of Inl e \<Rightarrow> Inl (OSError e) | Inr d \<Rightarrow> Inr d)"

definition environ_get :: "environment \<Rightarrow> str \<Rightarrow> error + str" where
  "environ_get env k = (case map_of (environ env) k of None \<Rightarrow> Inl (KeyError k) | Some v \<Rightarrow> Inr v)"

text \<open>
  The loop of \<open>commit\<close> over the files: each is read, stored as a blob, and entered under
  its name with the blob's id. \<open>k\<close> counts the temporary names drawn so far.
\<close>

fun store_files ::
  "(bytes \<Rightarrow> bytes) \<Rightarrow> (bytes \<Rightarrow> bytes) \<Rightarrow> environment \<Rightarrow> str \<Rightarrow> nat \<Rightarrow> str list
     \<Rightarrow> filesystem \<Rightarrow> (error \<times> filesystem) + (Entry list \<times> filesystem)"
where
  "store_files sha1 zlib_compress env db_path k [] fs = Inr ([], fs)"
| "store_files sha1 zlib_compress env db_path k (fname # rest) fs =
     (case read_file fs (cwd env) fname of
        Inl e \<Rightarrow> Inl (e, fs)
      | Inr dat \<Rightarrow>
          (case store sha1 zlib_compress db_path (random_choices env k) (new_Blob dat) fs of
             Inl (e, _, fs1) \<Rightarrow> Inl (e, fs1)
           | Inr (_, blob, fs1) \<Rightarrow>
               (case get_id blob of
                  Inl e \<Rightarrow> Inl (e, fs1)
                | Inr i \<Rightarrow>
                    (case store_files sha1 zlib_compress env db_path (Suc k) rest fs1 of
                       Inl failure \<Rightarrow> Inl failure
                     | Inr (es, fs2) \<Rightarrow>
                         Inr (\<lparr>Entry_name = fname, Entry_id = i\<rparr> # es, fs2)))))"

text \<open>
  The last statements: \<open>HEAD\<close> is opened in text mode for appending, and the id is
  written to it, encoded.
\<close>

definition append_head :: "str \<Rightarrow> str \<Rightarrow> filesystem \<Rightarrow> (error \<times> filesystem) + filesystem" where
  "append_head head_path i fs =
     (case os_open_append fs head_path of
        Inl e \<Rightarrow> Inl (OSError e, fs)
      | Inr fs1 \<Rightarrow>
          (case encode i of
             Inl e \<Rightarrow> Inl (e, fs1)
           | Inr b \<Rightarrow> Inr (os_write fs1 head_path b)))"

definition commit ::
  "(bytes \<Rightarrow> bytes) \<Rightarrow> (bytes \<Rightarrow> bytes) \<Rightarrow> environment \<Rightarrow> filesystem
     \<Rightarrow> (error \<times> filesystem) + (filesystem \<times> str)"
where
  "commit sha1 zlib_compress env fs =
     (let root_path = cwd env;
          git_path = path_join root_path [ascii ''.git''];
          db_path = path_join git_path [ascii ''objects'']
      in case list_files fs root_path of
           Inl e \<Rightarrow> Inl (e, fs)
         | Inr names \<Rightarrow>
         (case store_files sha1 zlib_compress env db_path 0 names fs of
            Inl failure \<Rightarrow> Inl failure
          | Inr (es, fs1) \<Rightarrow>
          (case store sha1 zlib_compress db_path (random_choices env (length names))
                  (new_Tree es) fs1 of
             Inl (e, _, fs2) \<Rightarrow> Inl (e, fs2)
           | Inr (_, tree_ob, fs2) \<Rightarrow>
           (case environ_get env (ascii ''GIT_AUTHOR_NAME'') of
              Inl e \<Rightarrow> Inl (e, fs2)
            | Inr name \<Rightarrow>
            (case environ_get env (ascii ''GIT_AUTHOR_EMAIL'') of
               Inl e \<Rightarrow> Inl (e, fs2)
             | Inr email \<Rightarrow>
             (case get_id tree_ob of
                Inl e \<Rightarrow> Inl (e, fs2)
              | Inr tree_id \<Rightarrow>
              (let author_ob = \<lparr>Author_name = name, Author_email = email, Author_time = now env\<rparr>;
                   msg = stdin_line env
               in case store sha1 zlib_compress db_path (random_choices env (Suc (length names)))
                         (new_Commit tree_id author_ob msg) fs2 of
                    Inl (e, _, fs3) \<Rightarrow> Inl (e, fs3)
                  | Inr (_, commit_ob, fs3) \<Rightarrow>
                  (case get_id commit_ob of
                     Inl e \<Rightarrow> Inl (e, fs3)
                   | Inr commit_id \<Rightarrow>
                   (case append_head (path_join git_path [ascii ''HEAD'']) commit_id fs3 of
                      Inl failure \<Rightarrow> Inl failure
                    | Inr fs4 \<Rightarrow>
                        Inr (fs4, ascii ''[(root-commit) '' @ commit_id @ ascii ''] '' @ msg
                                    @ [10]))))))))))"

text \<open>The local variable \<open>git_path\<close> of \<open>init\<close> and of \<open>commit\<close>.\<close>

definition git_path :: "str \<Rightarrow> str" where
  "git_path root_path = path_join root_path [ascii ''.git'']"

section \<open>Example inputs\<close>

text \<open>
  Inputs for the examples below: a stand-in for the digest (twenty bytes, each the length
  of the input modulo 256), a work tree \<open>/r\<close> with two files before and after \<open>init\<close>,
  the same tree where nothing may be created in the root or in a fan-out directory, and
  what a commit reads.
\<close>

definition example_sha1 :: "bytes \<Rightarrow> bytes" where
  "example_sha1 b = replicate 20 (char_of (length b))"

definition example_fs :: filesystem where
  "example_fs =
     \<lparr>dirs = [ascii ''/r/.git/refs'', ascii ''/r/.git/objects'', ascii ''/r/.git'',
              ascii ''/r'', ascii ''/''],
      files = [(ascii ''/r/b.txt'', ''world''), (ascii ''/r/a.txt'', ''hello'' @ [CHR 0x0A])],
      denied = []\<rparr>"

definition example_denied_fs :: filesystem where
  "example_denied_fs =
     \<lparr>dirs = [ascii ''/r/.git/objects/0d'', ascii ''/r/.git/refs'', ascii ''/r/.git/objects'',
              ascii ''/r/.git'', ascii ''/r'', ascii ''/''],
      files = [(ascii ''/r/a.txt'', ''hello'' @ [CHR 0x0A])],
      denied = [ascii ''/r/.git/objects/0d'']\<rparr>"

definition example_bare_fs :: filesystem where
  "example_bare_fs =
     \<lparr>dirs = [ascii ''/r'', ascii ''/''],
      files = [(ascii ''/r/b.txt'', ''world''), (ascii ''/r/a.txt'', ''hello'' @ [CHR 0x0A])],
      denied = []\<rparr>"

definition example_readonly_fs :: filesystem where
  "example_readonly_fs =
     \<lparr>dirs = [ascii ''/r'', ascii ''/''],
      files = [(ascii ''/r/a.txt'', ''hello'' @ [CHR 0x0A])],
      denied = [ascii ''/r'']\<rparr>"

definition example_env :: environment where
  "example_env =
     \<lparr>cwd = ascii ''/r'',
      environ = [(ascii ''GIT_AUTHOR_NAME'', ascii ''Jane''),
                 (ascii ''GIT_AUTHOR_EMAIL'', ascii ''jane@x.com'')],
      stdin_line = ascii ''init'' @ [10],
      now = \<lparr>posix_seconds = 1000, utcoffset = None\<rparr>,
      random_choices = (\<lambda>k. ascii (''ABC12'' @ [digit_char k]))\<rparr>"

section \<open>Facts about the library functions\<close>

subsection \<open>Decimal and hexadecimal numerals\<close>


lemma digit_char_in: "k < 10 \<Longrightarrow> digit_char k \<in> set ''0123456789''"
  using nth_mem [of k "''0123456789''"] by (simp add: digit_char_def)



lemma str_of_nat_digits: "set (str_of_nat n) \<subseteq> set ''0123456789''"
proof (induction n rule: str_of_nat.induct)
  case (1 n)
  show ?case
  proof (cases "n < 10")
    case True
    then show ?thesis
      using digit_char_in [of n] by (simp add: str_of_nat.simps [of n])
  next
    case False
    then have "set (str_of_nat (n div 10)) \<subseteq> set ''0123456789''" using 1 by simp
    then show ?thesis
      using False digit_char_in [of "n mod 10"] by (simp add: str_of_nat.simps [of n])
  qed
qed

lemma hexdigit_in: "k < 16 \<Longrightarrow> hexdigit k \<in> set ''0123456789abcdef''"
  using nth_mem [of k "''0123456789abcdef''"] by (simp add: hexdigit_def)

lemma of_char_lt_256: "(of_char c :: nat) < 256"
  by (cases c) (simp add: of_char_def horner_sum_eq_sum)

lemma hexbyte_lower: "set (hexbyte c) \<subseteq> set ''0123456789abcdef''"
proof -
  have "(of_char c :: nat) div 16 < 16" using of_char_lt_256 [of c] by arith
  moreover have "(of_char c :: nat) mod 16 < 16" by simp
  ultimately show ?thesis
    using hexdigit_in [of "of_char c div 16"] hexdigit_in [of "of_char c mod 16"]
    by (simp add: hexbyte_def)
qed

lemma hexchars_lower: "set (hexchars d) \<subseteq> set ''0123456789abcdef''"
  using hexbyte_lower by (induction d) (auto simp: hexchars_def)


lemma hexdigest_lower: "set (hexdigest d) \<subseteq> set (ascii ''0123456789abcdef'')"
  using hexchars_lower [of d] unfolding hexdigest_def ascii_def set_map by (rule image_mono)


lemma hexdigest_no_sep: "sep \<notin> set (hexdigest d)"
  using hexdigest_lower [of d] by (auto simp: ascii_def sep_def)

lemma hexdigest_nonempty: "d \<noteq> [] \<Longrightarrow> hexdigest d \<noteq> []"
  by (cases d) (simp_all add: hexdigest_def ascii_def hexchars_def hexbyte_def)

subsection \<open>Encoding ASCII text\<close>

lemma encode_Nil: "encode [] = Inr []"
  by (simp add: encode_def)

lemma encode_ascii:
  "\<forall>c\<in>set s. (of_char c :: nat) < 128 \<Longrightarrow> encode (ascii s) = Inr s"
proof -
  assume a: "\<forall>c\<in>set s. (of_char c :: nat) < 128"
  have n: "\<not> list_ex surrogate (ascii s)"
    using a by (auto simp: list_ex_iff ascii_def surrogate_def)
  have "concat (map utf8_codepoint (ascii s)) = s"
    using a by (induction s) (simp_all add: ascii_def utf8_codepoint_def)
  then show ?thesis using n by (simp add: encode_def)
qed

lemma hex_is_ascii: "c \<in> set ''0123456789abcdef'' \<Longrightarrow> (of_char c :: nat) < 128"
  by auto


lemma encode_hexdigest: "encode (hexdigest d) = Inr (hexchars d)"
  unfolding hexdigest_def
  by (rule encode_ascii) (use hexchars_lower [of d] hex_is_ascii in blast)


lemma encode_append:
  "encode (a @ b) =
     (case encode a of
        Inl e \<Rightarrow> Inl e
      | Inr x \<Rightarrow> (case encode b of Inl e \<Rightarrow> Inl e | Inr y \<Rightarrow> Inr (x @ y)))"
  by (simp add: encode_def)

lemma encode_error: "encode s = Inl e \<Longrightarrow> e = UnicodeEncodeError"
  by (simp add: encode_def split: if_splits)

lemma encode_fails_iff: "encode s = Inl UnicodeEncodeError \<longleftrightarrow> (\<exists>c\<in>set s. surrogate c)"
  by (simp add: encode_def list_ex_iff)

lemma encode_succeeds_iff:
  "(\<exists>b. encode s = Inr b) \<longleftrightarrow> (\<forall>c\<in>set s. \<not> surrogate c)"
  by (simp add: encode_def list_ex_iff)

subsection \<open>\<open>bytearray.fromhex\<close>\<close>

lemma hexdigits_closed:
  "\<forall>n\<in>set ([48..<58] @ [97..<103] @ [65..<71]). n \<in> set (ascii ''0123456789abcdefABCDEF'')"
  by code_simp

lemma hexval_Some_hexchar:
  assumes "hexval c \<noteq> None"
  shows "c \<in> set (ascii ''0123456789abcdefABCDEF'')"
proof -
  from assms have "c \<in> {48..<58} \<union> {97..<103} \<union> {65..<71}"
    by (auto simp: hexval_def split: if_splits)
  then have "c \<in> set ([48..<58] @ [97..<103] @ [65..<71])"
    by (simp only: set_append set_upt Un_assoc)
  then show ?thesis using hexdigits_closed by blast
qed

lemma hexval_of_hexchar: "c \<in> set (ascii ''0123456789abcdefABCDEF'') \<Longrightarrow> hexval c \<noteq> None"
  by (auto simp: hexval_def ascii_def)

lemma whitespace_closed:
  "\<forall>n\<in>set (32 # [9..<14]). n \<in> set [32, 9, 10, 11, 12, 13 :: nat]"
  by code_simp

lemma isspace_whitespace:
  assumes "isspace c"
  shows "c \<in> set [32, 9, 10, 11, 12, 13]"
proof -
  from assms have "c \<in> set (32 # [9..<14])"
    by (auto simp: isspace_def)
  then show ?thesis using whitespace_closed by blast
qed

lemma whitespace_isspace: "c \<in> set [32, 9, 10, 11, 12, 13] \<Longrightarrow> isspace c"
  by (auto simp: isspace_def)

lemma hexval_not_space: "hexval c \<noteq> None \<Longrightarrow> \<not> isspace c"
  by (auto simp: hexval_def isspace_def split: if_splits)

lemma fromhex_error: "fromhex s = Inl e \<Longrightarrow> e = ValueError"
proof (induction s arbitrary: e rule: fromhex.induct)
  case 1
  then show ?case by simp
next
  case (2 c)
  then show ?case by (simp split: if_splits)
next
  case (3 c d r)
  show ?case
  proof (cases "isspace c")
    case True
    then show ?thesis using 3 by simp
  next
    case False
    then show ?thesis using 3(2) 3(3)
      by (auto split: option.splits sum.splits)
  qed
qed

lemma fromhex_bad_char:
  "\<exists>c\<in>set s. hexval c = None \<and> \<not> isspace c \<Longrightarrow> fromhex s = Inl ValueError"
proof (induction s rule: fromhex.induct)
  case 1
  then show ?case by simp
next
  case (2 c)
  then show ?case by simp
next
  case (3 c d r)
  show ?case
  proof (cases "isspace c")
    case True
    then have "\<exists>x\<in>set (d # r). hexval x = None \<and> \<not> isspace x" using 3(3) by auto
    then show ?thesis using True 3(1) by simp
  next
    case nsp: False
    show ?thesis
    proof (cases "hexval c")
      case None
      then show ?thesis using nsp by simp
    next
      case hc: (Some hi)
      show ?thesis
      proof (cases "hexval d")
        case None
        then show ?thesis using nsp hc by simp
      next
        case hd: (Some lo)
        then have "\<exists>x\<in>set r. hexval x = None \<and> \<not> isspace x" using 3(3) hc by auto
        then have "fromhex r = Inl ValueError" using 3(2) nsp hc hd by simp
        then show ?thesis using nsp hc hd by simp
      qed
    qed
  qed
qed

lemma fromhex_hex:
  "\<forall>c\<in>set s. hexval c \<noteq> None \<Longrightarrow>
     (even (length s) \<longrightarrow> (\<exists>bs. fromhex s = Inr bs \<and> 2 * length bs = length s)) \<and>
     (odd (length s) \<longrightarrow> fromhex s = Inl ValueError)"
proof (induction s rule: fromhex.induct)
  case 1
  then show ?case by simp
next
  case (2 c)
  then show ?case using hexval_not_space by simp
next
  case (3 c d r)
  from 3(3) obtain hi lo where hc: "hexval c = Some hi" and hd: "hexval d = Some lo"
    by auto
  have nsp: "\<not> isspace c" using hc hexval_not_space by simp
  have "\<forall>x\<in>set r. hexval x \<noteq> None" using 3(3) by simp
  then have ih: "(even (length r) \<longrightarrow> (\<exists>bs. fromhex r = Inr bs \<and> 2 * length bs = length r)) \<and>
     (odd (length r) \<longrightarrow> fromhex r = Inl ValueError)"
    using 3(2) [OF nsp hc hd] by simp
  show ?case using ih nsp hc hd by auto
qed

subsection \<open>Stable sorting\<close>

lemma filter_key_distinct:
  "distinct (map f l) \<Longrightarrow> k \<in> set l \<Longrightarrow> filter (\<lambda>x. f k = f x) l = [k]"
  by (induction l) (auto simp: filter_empty_conv image_iff)

lemma distinct_map_mset:
  assumes "mset ys = mset xs" "distinct (map f xs)"
  shows "distinct (map f ys)"
proof -
  have "mset (map f ys) = mset (map f xs)" using assms(1) by (metis mset_map)
  then show ?thesis using assms(2) by (metis mset_eq_imp_distinct_iff)
qed

lemma sort_key_perm:
  assumes "distinct (map f xs)" "mset ys = mset xs"
  shows "sort_key f ys = sort_key f xs"
proof (rule properties_for_sort_key)
  show "mset (sort_key f xs) = mset ys" using assms by simp
  show "sorted (map f (sort_key f xs))" by simp
  fix k assume k: "k \<in> set (sort_key f xs)"
  have dy: "distinct (map f ys)" using assms distinct_map_mset by blast
  have ds: "distinct (map f (sort_key f xs))"
    using distinct_map_mset [of "sort_key f xs" xs f] assms by simp
  have "k \<in> set ys" using k assms(2) by (metis mset_eq_setD set_sort)
  then show "filter (\<lambda>x. f k = f x) (sort_key f xs) = filter (\<lambda>x. f k = f x) ys"
    using filter_key_distinct [OF ds k] filter_key_distinct [OF dy] by simp
qed

subsection \<open>The file system\<close>

lemma map_of_filter_fst:
  "map_of (filter (\<lambda>(q, _). P q) xs) k = (if P k then map_of xs k else None)"
  by (induction xs) auto

lemma os_open_append_effect:
  assumes "os_open_append fs p = Inr fs1"
  shows "file_content fs1 q =
           (if q = p then Some (case file_content fs p of None \<Rightarrow> [] | Some c \<Rightarrow> c)
            else file_content fs q)"
  using assms by (auto simp: os_open_append_def file_content_def split: if_splits)

lemma os_open_append_ENOENT:
  "os_open_append fs p = Inl ENOENT \<Longrightarrow> file_content fs p = None"
  by (auto simp: os_open_append_def split: if_splits)

lemma os_mkdir_files: "os_mkdir fs p = Inr fs1 \<Longrightarrow> file_content fs1 q = file_content fs q"
  by (auto simp: os_mkdir_def file_content_def split: if_splits)

lemma os_write_effect:
  "file_content fs p = Some old \<Longrightarrow>
     file_content (os_write fs p d) q = (if q = p then Some (old @ d) else file_content fs q)"
  by (simp add: os_write_def file_content_def)

lemma os_rename_effect:
  assumes "os_rename fs src dst = Inr fs2"
  shows "file_content fs2 q =
           (if q = dst then file_content fs src
            else if q = src then None else file_content fs q)"
  using assms
  by (auto simp: os_rename_def file_content_def map_of_filter_fst
           split: option.splits if_splits)

lemma open_temp_effect:
  assumes "open_temp dirname tmp fs = Inr (True, fs1)"
  shows "file_content fs1 q =
           (if q = tmp then Some (case file_content fs tmp of None \<Rightarrow> [] | Some c \<Rightarrow> c)
            else file_content fs q)"
proof (cases "os_open_append fs tmp")
  case (Inr fsa)
  then have "fs1 = fsa" using assms by (simp add: open_temp_def)
  then show ?thesis using os_open_append_effect [OF Inr] by simp
next
  case (Inl e)
  then have e: "e = ENOENT" using assms by (auto simp: open_temp_def split: if_splits)
  then have none: "file_content fs tmp = None" using Inl os_open_append_ENOENT by simp
  from Inl assms obtain fsa where mk: "os_mkdir fs dirname = Inr fsa"
    and op: "os_open_append fsa tmp = Inr fs1"
    by (auto simp: open_temp_def split: if_splits sum.splits)
  show ?thesis
    using os_open_append_effect [OF op, of q] os_mkdir_files [OF mk] none by simp
qed

lemma write_object_effect:
  assumes "write_object zc pathname rnd i content fs = Inr fs'"
  shows "file_content fs' q =
           (if q = object_path pathname i
            then Some ((case file_content fs (temp_path pathname rnd i) of
                          None \<Rightarrow> [] | Some c \<Rightarrow> c) @ zc content)
            else if q = temp_path pathname rnd i then None
            else file_content fs q)"
proof -
  let ?obj = "object_path pathname i"
  let ?tmp = "temp_path pathname rnd i"
  let ?old = "case file_content fs ?tmp of None \<Rightarrow> [] | Some c \<Rightarrow> c"
  from assms obtain fs1 where op: "open_temp (os_dirname ?obj) ?tmp fs = Inr (True, fs1)"
    and rn: "os_rename (os_write fs1 ?tmp (zc content)) ?tmp ?obj = Inr fs'"
    by (auto simp: write_object_def temp_path_def Let_def simp del: path_join.simps
             split: sum.splits if_splits)
  have c1: "file_content fs1 ?tmp = Some ?old"
    using open_temp_effect [OF op, of ?tmp] by simp
  have w: "\<And>r. file_content (os_write fs1 ?tmp (zc content)) r =
             (if r = ?tmp then Some (?old @ zc content) else file_content fs r)"
    using os_write_effect [OF c1] open_temp_effect [OF op] by simp
  show ?thesis using os_rename_effect [OF rn, of q] w by auto
qed

subsection \<open>Paths\<close>

lemma path_join_single:
  "p \<noteq> [] \<Longrightarrow> last p \<noteq> sep \<Longrightarrow> \<not> startswith_sep b \<Longrightarrow> path_join p [b] = p @ [sep] @ b"
  by simp

lemma not_startswith_sep: "sep \<notin> set b \<Longrightarrow> \<not> startswith_sep b"
  by (cases b) (auto simp: startswith_sep_def)

lemma ascii_no_sep: "CHR ''/'' \<notin> set s \<Longrightarrow> sep \<notin> set (ascii s)"
proof
  assume a: "CHR ''/'' \<notin> set s" and "sep \<in> set (ascii s)"
  then obtain c where c: "c \<in> set s" "(of_char c :: nat) = 47"
    by (auto simp: ascii_def sep_def)
  have k: "char_of (47 :: nat) = CHR ''/''" by code_simp
  have "char_of (of_char c :: nat) = c" by simp
  then have "c = CHR ''/''" using c(2) k by simp
  then show False using a c(1) by simp
qed

lemma last_no_sep: "b \<noteq> [] \<Longrightarrow> sep \<notin> set b \<Longrightarrow> last b \<noteq> sep"
  using last_in_set by metis

lemma object_path_eq:
  assumes "p \<noteq> []" "last p \<noteq> sep" "i \<noteq> []" "sep \<notin> set i"
  shows "object_path p i = p @ [sep] @ take 2 i @ [sep] @ drop 2 i"
proof -
  have t: "sep \<notin> set (take 2 i)" using assms(4) in_set_takeD by metis
  have d: "sep \<notin> set (drop 2 i)" using assms(4) in_set_dropD by metis
  have tn: "take 2 i \<noteq> []" using assms(3) by simp
  have "last (p @ [sep] @ take 2 i) \<noteq> sep" using last_no_sep [OF tn t] tn by simp
  then show ?thesis
    using assms(1,2) not_startswith_sep [OF t] not_startswith_sep [OF d]
    by (simp add: object_path_def)
qed

lemma os_dirname_append:
  assumes "a \<noteq> []" "last a \<noteq> sep" "sep \<notin> set b"
  shows "os_dirname (a @ [sep] @ b) = a"
proof -
  obtain ys y where a: "a = ys @ [y]" and y: "y \<noteq> sep"
    using assms(1,2) by (cases a rule: rev_cases) auto
  have "dropWhile (\<lambda>c. c \<noteq> sep) (rev b @ sep # rev a) =
        dropWhile (\<lambda>c. c \<noteq> sep) (sep # rev a)"
    by (rule dropWhile_append2) (use assms(3) in auto)
  then have h: "rev (dropWhile (\<lambda>c. c \<noteq> sep) (rev (a @ [sep] @ b))) = a @ [sep]"
    by simp
  have ne: "a @ [sep] \<noteq> replicate (length (a @ [sep])) sep"
  proof
    assume "a @ [sep] = replicate (length (a @ [sep])) sep"
    then have "set (a @ [sep]) \<subseteq> {sep}" by (metis set_replicate_conv_if empty_subsetI subset_refl)
    then show False using a y by auto
  qed
  have "rstrip_sep (a @ [sep]) = a" using a y by (simp add: rstrip_sep_def)
  then show ?thesis using h ne by (simp add: os_dirname_def Let_def)
qed

lemma git_path_ends: "git_path r \<noteq> [] \<and> last (git_path r) \<noteq> sep"
  by (simp add: git_path_def startswith_sep_def ascii_def sep_def)

lemma db_path_git:
  "path_join (git_path r) [ascii ''objects''] = git_path r @ [sep] @ ascii ''objects''"
  using git_path_ends [of r] by (simp add: startswith_sep_def ascii_def sep_def)

lemma head_path_git:
  "path_join (git_path r) [ascii ''HEAD''] = git_path r @ [sep] @ ascii ''HEAD''"
  using git_path_ends [of r] by (simp add: startswith_sep_def ascii_def sep_def)

lemma refs_path_git:
  "path_join (git_path r) [ascii ''refs''] = git_path r @ [sep] @ ascii ''refs''"
  using git_path_ends [of r] by (simp add: startswith_sep_def ascii_def sep_def)

lemma db_path_ends:
  "git_path r @ [sep] @ ascii ''objects'' \<noteq> [] \<and>
   last (git_path r @ [sep] @ ascii ''objects'') \<noteq> sep"
  by (simp add: ascii_def sep_def)

lemma object_path_empty:
  "p \<noteq> [] \<Longrightarrow> last p \<noteq> sep \<Longrightarrow> object_path p [] = p @ [sep]"
  by (simp add: object_path_def startswith_sep_def)

lemma temp_name_no_sep: "\<not> startswith_sep (generate_temp_name rnd)"
  by (simp add: generate_temp_name_def startswith_sep_def ascii_def sep_def)

lemma object_under_db:
  assumes p: "p \<noteq> []" "last p \<noteq> sep" and i: "sep \<notin> set i"
  shows "\<exists>s. object_path p i = p @ [sep] @ s"
proof (cases "i = []")
  case True
  then show ?thesis using object_path_empty [OF p] by simp
next
  case False
  then show ?thesis using object_path_eq [OF p False i] by blast
qed

lemma temp_under_db:
  assumes p: "p \<noteq> []" "last p \<noteq> sep" and i: "sep \<notin> set i"
  shows "\<exists>s. temp_path p rnd i = p @ [sep] @ s"
proof (cases "i = []")
  case True
  have "os_dirname (p @ [sep] @ []) = p" by (rule os_dirname_append) (use p in simp_all)
  then have "os_dirname (object_path p i) = p"
    using True object_path_empty [OF p] by simp
  then have "temp_path p rnd i = p @ [sep] @ generate_temp_name rnd"
    using p temp_name_no_sep [of rnd] by (simp add: temp_path_def)
  then show ?thesis by blast
next
  case False
  have t: "sep \<notin> set (take 2 i)" using i in_set_takeD by metis
  have d: "sep \<notin> set (drop 2 i)" using i in_set_dropD by metis
  have tn: "take 2 i \<noteq> []" using False by simp
  have l: "last (p @ [sep] @ take 2 i) \<noteq> sep" using last_no_sep [OF tn t] tn by simp
  have "os_dirname ((p @ [sep] @ take 2 i) @ [sep] @ drop 2 i) = p @ [sep] @ take 2 i"
    by (rule os_dirname_append) (use l d in simp_all)
  then have "os_dirname (object_path p i) = p @ [sep] @ take 2 i"
    using object_path_eq [OF p False i] by simp
  then have "temp_path p rnd i = (p @ [sep] @ take 2 i) @ [sep] @ generate_temp_name rnd"
    using l temp_name_no_sep [of rnd] by (simp add: temp_path_def)
  then show ?thesis by simp
qed

subsection \<open>What \<open>store\<close> computes\<close>

lemma store_result:
  assumes "store sha1 zc pathname rnd ob fs = Inr (r, ob', fs')"
  shows "\<exists>dat. serialize (body ob) = Inr dat \<and> r = PyNone \<and>
           ob' = ob\<lparr>obj_id := Some (hexdigest (sha1 (frame (obj_type (body ob)) dat)))\<rparr> \<and>
           write_object zc pathname rnd (hexdigest (sha1 (frame (obj_type (body ob)) dat)))
             (frame (obj_type (body ob)) dat) fs = Inr fs'"
  using assms by (auto simp: store_def Let_def split: sum.splits)

lemma store_fails_early:
  "serialize (body ob) = Inl e \<Longrightarrow> store sha1 zc pathname rnd ob fs = Inl (e, ob, fs)"
  by (simp add: store_def)

section \<open>The storage frame and the content id\<close>



section \<open>What \<open>store\<close> returns\<close>

text \<open>
  C3, as amended. \<open>store\<close> has no \<open>return\<close> statement: a call that succeeds evaluates
  to \<open>None\<close>. It assigns the content id to the object's \<open>id\<close>, where the caller reads it,
  and leaves the rest of the object as it was.
\<close>

theorem store_assigns_id:
  "store sha1 zc pathname rnd ob fs = Inr (r, ob', fs') \<Longrightarrow>
     r = PyNone \<and> body ob' = body ob \<and>
     (\<exists>dat. serialize (body ob) = Inr dat \<and>
        get_id ob' = Inr (hexdigest (sha1 (frame (obj_type (body ob)) dat))))"
  using store_result [of sha1 zc pathname rnd ob fs r ob' fs']
  by (auto simp: get_id_def)

theorem store_assigns_id_witness:
  "store example_sha1 (\<lambda>b. b) (ascii ''/r/.git/objects'') (ascii ''XYZ789'') (new_Blob ''world'')
      example_fs =
     Inr (PyNone,
          \<lparr>body = Blob ''world'',
             obj_id = Some (ascii ''0c0c0c0c0c0c0c0c0c0c0c0c0c0c0c0c0c0c0c0c'')\<rparr>,
          \<lparr>dirs = [ascii ''/r/.git/objects/0c'', ascii ''/r/.git/refs'', ascii ''/r/.git/objects'',
                   ascii ''/r/.git'', ascii ''/r'', ascii ''/''],
             files = [(ascii ''/r/.git/objects/0c/0c0c0c0c0c0c0c0c0c0c0c0c0c0c0c0c0c0c0c'',
                       ''blob 5'' @ [CHR 0x00] @ ''world''),
                      (ascii ''/r/b.txt'', ''world''),
                      (ascii ''/r/a.txt'', ''hello'' @ [CHR 0x0A])],
             denied = []\<rparr>)
   \<and> PyNone = PyNone
   \<and> get_id \<lparr>body = Blob ''world'',
               obj_id = Some (ascii ''0c0c0c0c0c0c0c0c0c0c0c0c0c0c0c0c0c0c0c0c'')\<rparr>
       = Inr (hexdigest (example_sha1 (frame ''blob'' ''world'')))"
proof -
  have e: "store example_sha1 (\<lambda>b. b) (ascii ''/r/.git/objects'') (ascii ''XYZ789'')
      (new_Blob ''world'') example_fs =
     Inr (PyNone,
          \<lparr>body = Blob ''world'',
             obj_id = Some (ascii ''0c0c0c0c0c0c0c0c0c0c0c0c0c0c0c0c0c0c0c0c'')\<rparr>,
          \<lparr>dirs = [ascii ''/r/.git/objects/0c'', ascii ''/r/.git/refs'', ascii ''/r/.git/objects'',
                   ascii ''/r/.git'', ascii ''/r'', ascii ''/''],
             files = [(ascii ''/r/.git/objects/0c/0c0c0c0c0c0c0c0c0c0c0c0c0c0c0c0c0c0c0c'',
                       ''blob 5'' @ [CHR 0x00] @ ''world''),
                      (ascii ''/r/b.txt'', ''world''),
                      (ascii ''/r/a.txt'', ''hello'' @ [CHR 0x0A])],
             denied = []\<rparr>)"
    by code_simp
  from store_assigns_id [OF e] show ?thesis using e by (auto simp: new_Blob_def)
qed

text \<open>
  The claim as stated fails: for a blob the call returns \<open>None\<close>, not the id that it
  assigned to the object.
\<close>

theorem store_returns_None_counterexample:
  "map_sum (\<lambda>e. e) fst
     (store example_sha1 (\<lambda>b. b) (ascii ''/r/.git/objects'') (ascii ''ABC123'')
        (new_Blob (''hello'' @ [CHR 0x0A])) example_fs) = Inr PyNone
   \<and> map_sum (\<lambda>e. e) fst
     (store example_sha1 (\<lambda>b. b) (ascii ''/r/.git/objects'') (ascii ''ABC123'')
        (new_Blob (''hello'' @ [CHR 0x0A])) example_fs)
       \<noteq> Inr (PyStr (ascii ''0d0d0d0d0d0d0d0d0d0d0d0d0d0d0d0d0d0d0d0d''))
   \<and> map_sum (\<lambda>e. e) (\<lambda>r. obj_id (fst (snd r)))
     (store example_sha1 (\<lambda>b. b) (ascii ''/r/.git/objects'') (ascii ''ABC123'')
        (new_Blob (''hello'' @ [CHR 0x0A])) example_fs)
       = Inr (Some (ascii ''0d0d0d0d0d0d0d0d0d0d0d0d0d0d0d0d0d0d0d0d''))"
  by code_simp

section \<open>The author line\<close>

text \<open>
  With a time zone whose offset is a whole number of minutes, less than a day, \<open>%z\<close>
  prints the sign and four digits.
\<close>

lemma ascii_append: "ascii (s @ t) = ascii s @ ascii t"
  by (simp add: ascii_def)

lemma length_str_of_nat_small: "n < 10 \<Longrightarrow> length (str_of_nat n) = 1"
  by (simp add: str_of_nat.simps [of n])

lemma length_pad2: "n < 100 \<Longrightarrow> length (pad2 n) = 2"
proof (cases "n < 10")
  case True
  then show ?thesis by (simp add: pad2_def length_str_of_nat_small)
next
  case False
  assume "n < 100"
  then have "n div 10 < 10" by simp
  then show ?thesis
    using False by (simp add: pad2_def str_of_nat.simps [of n] length_str_of_nat_small)
qed

lemma pad2_digits: "set (pad2 n) \<subseteq> set ''0123456789''"
  using str_of_nat_digits [of n] by (auto simp: pad2_def)

lemma Author_serialize_aware_time:
  assumes "utcoffset (Author_time a) = Some (60000000 * m)" and "\<bar>m\<bar> < 1440"
  shows "Author_serialize a =
           Author_name a @ ascii '' '' @ Author_email a @ ascii '' '' @
           ascii (str_of_int (posix_seconds (Author_time a)) @ '' '' @
                  (if m < 0 then ''-'' else ''+'') @
                  pad2 (nat \<bar>m\<bar> div 60) @ pad2 (nat \<bar>m\<bar> mod 60))
         \<and> length (pad2 (nat \<bar>m\<bar> div 60)) = 2
         \<and> length (pad2 (nat \<bar>m\<bar> mod 60)) = 2
         \<and> set (pad2 (nat \<bar>m\<bar> div 60) @ pad2 (nat \<bar>m\<bar> mod 60)) \<subseteq> set ''0123456789''"
proof -
  let ?n = "nat \<bar>m\<bar>"
  have a: "nat \<bar>60000000 * m\<bar> = 1000000 * (60 * ?n)"
    by (simp add: abs_mult nat_mult_distrib)
  have s: "(60000000 * m < 0) = (m < 0)" by simp
  have f: "format_utcoffset (Some (60000000 * m)) =
             (if m < 0 then ''-'' else ''+'') @ pad2 (?n div 60) @ pad2 (?n mod 60)"
    unfolding format_utcoffset_def option.case Let_def a s
    by (simp add: div_mult2_eq)
  have h: "?n div 60 < 100" using assms(2) by simp
  have mi: "?n mod 60 < 100" by simp
  show ?thesis
    using assms(1) f length_pad2 [OF h] length_pad2 [OF mi]
      pad2_digits [of "?n div 60"] pad2_digits [of "?n mod 60"]
    by (simp add: Author_serialize_def strftime_s_z_def)
qed

text \<open>
  C4. The code at the input that \<open>commit\<close> gives it: \<open>datetime.now()\<close> is naive, so
  \<open>%z\<close> prints nothing, and the author's text ends with the space that follows the
  seconds. No offset field is printed.
\<close>

theorem Author_serialize_naive_time:
  "utcoffset (Author_time a) = None \<Longrightarrow>
     Author_serialize a =
       Author_name a @ ascii '' '' @ Author_email a @ ascii '' '' @
       ascii (str_of_int (posix_seconds (Author_time a))) @ ascii '' ''"
  by (simp add: Author_serialize_def strftime_s_z_def format_utcoffset_def ascii_append)

theorem Author_serialize_naive_time_witness:
  "Author_serialize
     \<lparr>Author_name = ascii ''Jane'', Author_email = ascii ''jane@x.com'',
        Author_time = \<lparr>posix_seconds = 1700000000, utcoffset = None\<rparr>\<rparr>
   = ascii ''Jane jane@x.com 1700000000 ''"
  using Author_serialize_naive_time
    [of "\<lparr>Author_name = ascii ''Jane'', Author_email = ascii ''jane@x.com'',
           Author_time = \<lparr>posix_seconds = 1700000000, utcoffset = None\<rparr>\<rparr>"]
  by (simp add: str_of_int_def str_of_nat.simps digit_char_def ascii_def)

section \<open>The commit record\<close>

lemma ascii_not_surrogate: "c \<in> set (ascii s) \<Longrightarrow> \<not> surrogate c"
proof -
  assume "c \<in> set (ascii s)"
  then obtain x where x: "c = (of_char x :: nat)" by (auto simp: ascii_def)
  have "c < 256" unfolding x by (rule of_char_lt_256)
  then show ?thesis unfolding surrogate_def by linarith
qed

lemma bex_surrogate_ascii: "(\<exists>c\<in>set (ascii s). surrogate c) \<longleftrightarrow> False"
  using ascii_not_surrogate by blast

lemma bex_surrogate_newline: "(\<exists>c\<in>set [10]. surrogate c) \<longleftrightarrow> False"
  by (simp add: surrogate_def)

lemma Author_serialize_surrogate:
  "(\<exists>c\<in>set (Author_serialize a). surrogate c) \<longleftrightarrow>
   (\<exists>c\<in>set (Author_name a) \<union> set (Author_email a). surrogate c)"
  unfolding Author_serialize_def strftime_s_z_def set_append bex_Un bex_surrogate_ascii
  by simp

lemma commit_lines_eq:
  "commit_lines t a m =
     ascii ''tree '' @ t @ [10] @
     ascii ''author '' @ Author_serialize a @ [10] @
     ascii ''committer '' @ Author_serialize a @ [10] @
     [10] @ m"
  unfolding commit_lines_def by simp

lemma commit_lines_surrogate:
  "(\<exists>c\<in>set (commit_lines t a m). surrogate c) \<longleftrightarrow>
   (\<exists>c\<in>set t \<union> set (Author_name a) \<union> set (Author_email a) \<union> set m. surrogate c)"
  unfolding commit_lines_eq set_append bex_Un bex_surrogate_ascii bex_surrogate_newline
    Author_serialize_surrogate
  by blast

lemma encode_newline: "encode [10] = Inr [CHR 0x0A]"
  by code_simp

lemma encode_tree_word: "encode (ascii ''tree '') = Inr ''tree ''"
  by code_simp

lemma encode_author_word: "encode (ascii ''author '') = Inr ''author ''"
  by code_simp

lemma encode_committer_word: "encode (ascii ''committer '') = Inr ''committer ''"
  by code_simp

text \<open>
  C6, as amended. \<open>Commit.serialize\<close> is the UTF-8 encoding of the record: the line
  \<open>tree T\<close>, the line \<open>author\<close> with the author's text, the line \<open>committer\<close> with the same
  text, an empty line, and the message, joined by newlines; nothing follows the message.
  When the tree id, the author's name and e-mail and the message hold no lone surrogate,
  the result is these lines with each of the three texts encoded. When one of them
  holds a lone surrogate, \<open>str.encode\<close> raises \<open>UnicodeEncodeError\<close> and no bytes are
  returned.
\<close>

theorem Commit_serialize_record:
  "serialize (Commit t a m) =
     encode (ascii ''tree '' @ t @ [10] @
             ascii ''author '' @ Author_serialize a @ [10] @
             ascii ''committer '' @ Author_serialize a @ [10] @
             [10] @ m)
   \<and> ((\<forall>c\<in>set t \<union> set (Author_name a) \<union> set (Author_email a) \<union> set m. \<not> surrogate c) \<longrightarrow>
        (\<exists>tb ab mb. encode t = Inr tb \<and> encode (Author_serialize a) = Inr ab \<and>
           encode m = Inr mb \<and>
           serialize (Commit t a m) =
             Inr (''tree '' @ tb @ [CHR 0x0A] @
                  ''author '' @ ab @ [CHR 0x0A] @
                  ''committer '' @ ab @ [CHR 0x0A] @
                  [CHR 0x0A] @ mb)))
   \<and> ((\<exists>c\<in>set t \<union> set (Author_name a) \<union> set (Author_email a) \<union> set m. surrogate c) \<longrightarrow>
        serialize (Commit t a m) = Inl UnicodeEncodeError)"
proof (intro conjI impI)
  show "serialize (Commit t a m) =
     encode (ascii ''tree '' @ t @ [10] @
             ascii ''author '' @ Author_serialize a @ [10] @
             ascii ''committer '' @ Author_serialize a @ [10] @
             [10] @ m)"
    by (simp add: Commit_serialize_def commit_lines_eq)
next
  assume n: "\<forall>c\<in>set t \<union> set (Author_name a) \<union> set (Author_email a) \<union> set m. \<not> surrogate c"
  then have "\<forall>c\<in>set t. \<not> surrogate c" by simp
  then obtain tb where tb: "encode t = Inr tb" using encode_succeeds_iff [of t] by blast
  have "\<forall>c\<in>set (Author_serialize a). \<not> surrogate c"
    using n Author_serialize_surrogate [of a] by blast
  then obtain ab where ab: "encode (Author_serialize a) = Inr ab"
    using encode_succeeds_iff [of "Author_serialize a"] by blast
  from n have "\<forall>c\<in>set m. \<not> surrogate c" by simp
  then obtain mb where mb: "encode m = Inr mb" using encode_succeeds_iff [of m] by blast
  have "serialize (Commit t a m) =
             Inr (''tree '' @ tb @ [CHR 0x0A] @
                  ''author '' @ ab @ [CHR 0x0A] @
                  ''committer '' @ ab @ [CHR 0x0A] @
                  [CHR 0x0A] @ mb)"
    by (simp add: Commit_serialize_def commit_lines_eq encode_append tb ab mb encode_newline
          encode_tree_word encode_author_word encode_committer_word del: append.simps)
  then show "\<exists>tb ab mb. encode t = Inr tb \<and> encode (Author_serialize a) = Inr ab \<and>
           encode m = Inr mb \<and>
           serialize (Commit t a m) =
             Inr (''tree '' @ tb @ [CHR 0x0A] @
                  ''author '' @ ab @ [CHR 0x0A] @
                  ''committer '' @ ab @ [CHR 0x0A] @
                  [CHR 0x0A] @ mb)"
    using tb ab mb by blast
next
  assume "\<exists>c\<in>set t \<union> set (Author_name a) \<union> set (Author_email a) \<union> set m. surrogate c"
  then have "\<exists>c\<in>set (commit_lines t a m). surrogate c"
    using commit_lines_surrogate [of t a m] by blast
  then show "serialize (Commit t a m) = Inl UnicodeEncodeError"
    using encode_fails_iff [of "commit_lines t a m"] by (simp add: Commit_serialize_def)
qed

theorem Commit_serialize_record_witness:
  "serialize (Commit (ascii ''0d0d'')
       \<lparr>Author_name = ascii ''Jane'', Author_email = ascii ''jane@x.com'',
          Author_time = \<lparr>posix_seconds = 1000, utcoffset = None\<rparr>\<rparr> (ascii ''first''))
     = Inr (''tree 0d0d'' @ [CHR 0x0A] @
            ''author Jane jane@x.com 1000 '' @ [CHR 0x0A] @
            ''committer Jane jane@x.com 1000 '' @ [CHR 0x0A] @
            [CHR 0x0A] @ ''first'')
   \<and> serialize (Commit (ascii ''0d0d'')
       \<lparr>Author_name = ascii ''Jane'', Author_email = ascii ''jane@x.com'',
          Author_time = \<lparr>posix_seconds = 1000, utcoffset = None\<rparr>\<rparr> [102, 0xDC80])
     = Inl UnicodeEncodeError"
proof -
  let ?a = "\<lparr>Author_name = ascii ''Jane'', Author_email = ascii ''jane@x.com'',
          Author_time = \<lparr>posix_seconds = 1000, utcoffset = None\<rparr>\<rparr>"
  have n: "\<forall>c\<in>set (ascii ''0d0d'') \<union> set (Author_name ?a) \<union> set (Author_email ?a) \<union>
              set (ascii ''first''). \<not> surrogate c"
    using ascii_not_surrogate by auto
  have s: "\<exists>c\<in>set (ascii ''0d0d'') \<union> set (Author_name ?a) \<union> set (Author_email ?a) \<union>
              set [102, 0xDC80]. surrogate c"
    by (simp add: surrogate_def)
  have e: "encode (ascii ''0d0d'') = Inr ''0d0d''
         \<and> encode (Author_serialize ?a) = Inr ''Jane jane@x.com 1000 ''
         \<and> encode (ascii ''first'') = Inr ''first''"
    by code_simp
  from Commit_serialize_record [of "ascii ''0d0d''" ?a "ascii ''first''",
      THEN conjunct2, THEN conjunct1, THEN mp, OF n]
  have a: "serialize (Commit (ascii ''0d0d'') ?a (ascii ''first''))
     = Inr (''tree 0d0d'' @ [CHR 0x0A] @
            ''author Jane jane@x.com 1000 '' @ [CHR 0x0A] @
            ''committer Jane jane@x.com 1000 '' @ [CHR 0x0A] @
            [CHR 0x0A] @ ''first'')"
    using e by auto
  from Commit_serialize_record [of "ascii ''0d0d''" ?a "[102, 0xDC80]",
      THEN conjunct2, THEN conjunct2, THEN mp, OF s]
  show ?thesis using a by simp
qed

text \<open>
  The claim as stated fails: a message that holds a lone surrogate (standard input
  delivers one for a byte that is not UTF-8) cannot be encoded, and no record is
  returned.
\<close>

theorem Commit_serialize_surrogate_counterexample:
  "serialize (Commit (ascii ''0d0d0d0d0d0d0d0d0d0d0d0d0d0d0d0d0d0d0d0d'')
       \<lparr>Author_name = ascii ''Jane'', Author_email = ascii ''jane@x.com'',
          Author_time = \<lparr>posix_seconds = 1000, utcoffset = None\<rparr>\<rparr> [102, 0xDC80])
     = Inl UnicodeEncodeError
   \<and> surrogate 0xDC80"
  by code_simp

section \<open>The path of an object\<close>

text \<open>
  C7. For a content id (not empty, no separator in it: any hexadecimal digest is one) the
  object's path is the database's path, a separator, the first two characters of the id,
  a separator, and the rest of the id; under the path \<open>.git/objects\<close> of any root that is
  \<open>.git/objects/\<close>, the two characters, a separator, the rest. When \<open>write_object\<close>
  succeeds the file at that path holds the compressed content (after whatever a file of
  the temporary name already held).
\<close>

theorem object_path_fan_out:
  "i \<noteq> [] \<Longrightarrow> sep \<notin> set i \<Longrightarrow>
     (pathname \<noteq> [] \<and> last pathname \<noteq> sep \<longrightarrow>
        object_path pathname i = pathname @ [sep] @ take 2 i @ [sep] @ drop 2 i)
     \<and> object_path (path_join (path_join root [ascii ''.git'']) [ascii ''objects'']) i =
         path_join root [ascii ''.git''] @ ascii ''/objects/'' @ take 2 i @ ascii ''/'' @ drop 2 i
     \<and> (write_object zc pathname rnd i content fs = Inr fs' \<longrightarrow>
          file_content fs' (object_path pathname i) =
            Some ((case file_content fs (temp_path pathname rnd i) of
                     None \<Rightarrow> [] | Some c \<Rightarrow> c) @ zc content))
     \<and> (d \<noteq> [] \<longrightarrow> hexdigest d \<noteq> [] \<and> sep \<notin> set (hexdigest d))
     \<and> ascii ''/'' = [sep]"
proof -
  assume i: "i \<noteq> []" "sep \<notin> set i"
  have s: "ascii ''/'' = [sep]" by (simp add: ascii_def sep_def)
  have a: "pathname \<noteq> [] \<and> last pathname \<noteq> sep \<longrightarrow>
        object_path pathname i = pathname @ [sep] @ take 2 i @ [sep] @ drop 2 i"
    using object_path_eq i by blast
  have "object_path (git_path root @ [sep] @ ascii ''objects'') i =
          (git_path root @ [sep] @ ascii ''objects'') @ [sep] @ take 2 i @ [sep] @ drop 2 i"
    by (rule object_path_eq) (use i db_path_ends [of root] in simp_all)
  then have "object_path (path_join (git_path root) [ascii ''objects'']) i =
         git_path root @ ascii ''/objects/'' @ take 2 i @ ascii ''/'' @ drop 2 i"
    by (simp only: db_path_git) (simp add: ascii_def sep_def)
  then have b: "object_path (path_join (path_join root [ascii ''.git'']) [ascii ''objects'']) i =
         path_join root [ascii ''.git''] @ ascii ''/objects/'' @ take 2 i @ ascii ''/'' @ drop 2 i"
    by (simp only: git_path_def)
  have c: "write_object zc pathname rnd i content fs = Inr fs' \<longrightarrow>
          file_content fs' (object_path pathname i) =
            Some ((case file_content fs (temp_path pathname rnd i) of
                     None \<Rightarrow> [] | Some c \<Rightarrow> c) @ zc content)"
    using write_object_effect [of zc pathname rnd i content fs fs' "object_path pathname i"]
    by simp
  show ?thesis using a b c s hexdigest_nonempty hexdigest_no_sep by blast
qed

theorem object_path_fan_out_witness:
  "ascii ''0d0d0d0d0d0d0d0d0d0d0d0d0d0d0d0d0d0d0d0d'' \<noteq> []
   \<and> sep \<notin> set (ascii ''0d0d0d0d0d0d0d0d0d0d0d0d0d0d0d0d0d0d0d0d'')
   \<and> object_path (ascii ''/r/.git/objects'') (ascii ''0d0d0d0d0d0d0d0d0d0d0d0d0d0d0d0d0d0d0d0d'')
       = ascii ''/r/.git/objects/0d/0d0d0d0d0d0d0d0d0d0d0d0d0d0d0d0d0d0d0d''
   \<and> object_path (path_join (path_join (ascii ''/r'') [ascii ''.git'']) [ascii ''objects''])
         (ascii ''0d0d0d0d0d0d0d0d0d0d0d0d0d0d0d0d0d0d0d0d'')
       = ascii ''/r/.git/objects/0d/0d0d0d0d0d0d0d0d0d0d0d0d0d0d0d0d0d0d0d''
   \<and> write_object (\<lambda>b. b) (ascii ''/r/.git/objects'') (ascii ''ABC123'')
         (ascii ''0d0d0d0d0d0d0d0d0d0d0d0d0d0d0d0d0d0d0d0d'') ''frame'' example_fs =
       Inr \<lparr>dirs = [ascii ''/r/.git/objects/0d'', ascii ''/r/.git/refs'', ascii ''/r/.git/objects'',
                    ascii ''/r/.git'', ascii ''/r'', ascii ''/''],
            files = [(ascii ''/r/.git/objects/0d/0d0d0d0d0d0d0d0d0d0d0d0d0d0d0d0d0d0d0d'', ''frame''),
                     (ascii ''/r/b.txt'', ''world''), (ascii ''/r/a.txt'', ''hello'' @ [CHR 0x0A])],
            denied = []\<rparr>
   \<and> file_content
         \<lparr>dirs = [ascii ''/r/.git/objects/0d'', ascii ''/r/.git/refs'', ascii ''/r/.git/objects'',
                  ascii ''/r/.git'', ascii ''/r'', ascii ''/''],
            files = [(ascii ''/r/.git/objects/0d/0d0d0d0d0d0d0d0d0d0d0d0d0d0d0d0d0d0d0d'', ''frame''),
                     (ascii ''/r/b.txt'', ''world''), (ascii ''/r/a.txt'', ''hello'' @ [CHR 0x0A])],
            denied = []\<rparr>
         (ascii ''/r/.git/objects/0d/0d0d0d0d0d0d0d0d0d0d0d0d0d0d0d0d0d0d0d'') = Some ''frame''"
proof -
  let ?i = "ascii ''0d0d0d0d0d0d0d0d0d0d0d0d0d0d0d0d0d0d0d0d''"
  let ?fs = "\<lparr>dirs = [ascii ''/r/.git/objects/0d'', ascii ''/r/.git/refs'', ascii ''/r/.git/objects'',
                    ascii ''/r/.git'', ascii ''/r'', ascii ''/''],
            files = [(ascii ''/r/.git/objects/0d/0d0d0d0d0d0d0d0d0d0d0d0d0d0d0d0d0d0d0d'', ''frame''),
                     (ascii ''/r/b.txt'', ''world''), (ascii ''/r/a.txt'', ''hello'' @ [CHR 0x0A])],
            denied = []\<rparr>"
  have h1: "?i \<noteq> []" by (simp add: ascii_def)
  have h2: "sep \<notin> set ?i" by (rule ascii_no_sep) simp
  have w: "write_object (\<lambda>b. b) (ascii ''/r/.git/objects'') (ascii ''ABC123'') ?i ''frame''
             example_fs = Inr ?fs"
    by code_simp
  have t: "file_content example_fs (temp_path (ascii ''/r/.git/objects'') (ascii ''ABC123'') ?i)
             = None"
    by code_simp
  have p1: "object_path (ascii ''/r/.git/objects'') ?i
       = ascii ''/r/.git/objects/0d/0d0d0d0d0d0d0d0d0d0d0d0d0d0d0d0d0d0d0d''"
    by code_simp
  have p2: "path_join (path_join (ascii ''/r'') [ascii ''.git'']) [ascii ''objects'']
              = ascii ''/r/.git/objects''"
    by code_simp
  note f = object_path_fan_out [OF h1 h2, of "ascii ''/r/.git/objects''" "ascii ''/r''" "\<lambda>b. b"
      "ascii ''ABC123''" "''frame''" example_fs ?fs "[]"]
  have c: "file_content ?fs (ascii ''/r/.git/objects/0d/0d0d0d0d0d0d0d0d0d0d0d0d0d0d0d0d0d0d0d'')
             = Some ''frame''"
    using f [THEN conjunct2, THEN conjunct2, THEN conjunct1, THEN mp, OF w] t p1 by simp
  show ?thesis using h1 h2 p1 p2 w c by (intro conjI) simp_all
qed

section \<open>A failing open of the temporary file\<close>

text \<open>
  C8. The code where the first open of the temporary file fails. With an error other than
  \<open>ENOENT\<close> the handler ends without raising, the name \<open>f\<close> is unbound, and the call
  fails with \<open>UnboundLocalError\<close> at \<open>f.write\<close>, not with the error of the open; the file
  system is as it was. With \<open>ENOENT\<close> the directory is made and the file is opened once
  more; an error of either call, or of the rename, ends the call as that error, with what
  was made until then left in place.
\<close>

theorem write_object_first_open_fails:
  "(os_open_append fs (temp_path pathname rnd i) = Inl e \<and> e \<noteq> ENOENT \<longrightarrow>
      write_object zc pathname rnd i content fs = Inl (UnboundLocalError, fs))
   \<and> (os_open_append fs (temp_path pathname rnd i) = Inl ENOENT \<longrightarrow>
      write_object zc pathname rnd i content fs =
        (case os_mkdir fs (os_dirname (object_path pathname i)) of
           Inl e1 \<Rightarrow> Inl (OSError e1, fs)
         | Inr fs1 \<Rightarrow>
             (case os_open_append fs1 (temp_path pathname rnd i) of
                Inl e2 \<Rightarrow> Inl (OSError e2, fs1)
              | Inr fs2 \<Rightarrow>
                  (case os_rename (os_write fs2 (temp_path pathname rnd i) (zc content))
                          (temp_path pathname rnd i) (object_path pathname i) of
                     Inl e3 \<Rightarrow> Inl (OSError e3, os_write fs2 (temp_path pathname rnd i) (zc content))
                   | Inr fs3 \<Rightarrow> Inr fs3))))"
  by (simp add: write_object_def open_temp_def temp_path_def Let_def del: path_join.simps
           split: sum.splits)

theorem write_object_first_open_fails_witness:
  "os_open_append example_denied_fs
      (temp_path (ascii ''/r/.git/objects'') (ascii ''ABC123'')
         (ascii ''0d0d0d0d0d0d0d0d0d0d0d0d0d0d0d0d0d0d0d0d''))
     = Inl EACCES
   \<and> EACCES \<noteq> ENOENT
   \<and> write_object (\<lambda>b. b) (ascii ''/r/.git/objects'') (ascii ''ABC123'')
        (ascii ''0d0d0d0d0d0d0d0d0d0d0d0d0d0d0d0d0d0d0d0d'') ''frame'' example_denied_fs
     = Inl (UnboundLocalError, example_denied_fs)
   \<and> os_open_append example_fs
      (temp_path (ascii ''/r/.git/objects'') (ascii ''ABC123'')
         (ascii ''0d0d0d0d0d0d0d0d0d0d0d0d0d0d0d0d0d0d0d0d''))
     = Inl ENOENT
   \<and> write_object (\<lambda>b. b) (ascii ''/r/.git/objects'') (ascii ''ABC123'')
        (ascii ''0d0d0d0d0d0d0d0d0d0d0d0d0d0d0d0d0d0d0d0d'') ''frame'' example_fs
     = Inr \<lparr>dirs = [ascii ''/r/.git/objects/0d'', ascii ''/r/.git/refs'', ascii ''/r/.git/objects'',
                    ascii ''/r/.git'', ascii ''/r'', ascii ''/''],
            files = [(ascii ''/r/.git/objects/0d/0d0d0d0d0d0d0d0d0d0d0d0d0d0d0d0d0d0d0d'', ''frame''),
                     (ascii ''/r/b.txt'', ''world''), (ascii ''/r/a.txt'', ''hello'' @ [CHR 0x0A])],
            denied = []\<rparr>"
proof -
  let ?p = "ascii ''/r/.git/objects''"
  let ?r = "ascii ''ABC123''"
  let ?i = "ascii ''0d0d0d0d0d0d0d0d0d0d0d0d0d0d0d0d0d0d0d0d''"
  let ?fs = "\<lparr>dirs = [ascii ''/r/.git/objects/0d'', ascii ''/r/.git/refs'', ascii ''/r/.git/objects'',
                    ascii ''/r/.git'', ascii ''/r'', ascii ''/''],
            files = [(ascii ''/r/.git/objects/0d/0d0d0d0d0d0d0d0d0d0d0d0d0d0d0d0d0d0d0d'', ''frame''),
                     (ascii ''/r/b.txt'', ''world''), (ascii ''/r/a.txt'', ''hello'' @ [CHR 0x0A])],
            denied = []\<rparr>"
  have o: "os_open_append example_denied_fs (temp_path ?p ?r ?i) = Inl EACCES \<and> EACCES \<noteq> ENOENT"
    by code_simp
  have n: "os_open_append example_fs (temp_path ?p ?r ?i) = Inl ENOENT"
    by code_simp
  have r: "(case os_mkdir example_fs (os_dirname (object_path ?p ?i)) of
           Inl e1 \<Rightarrow> Inl (OSError e1, example_fs)
         | Inr fs1 \<Rightarrow>
             (case os_open_append fs1 (temp_path ?p ?r ?i) of
                Inl e2 \<Rightarrow> Inl (OSError e2, fs1)
              | Inr fs2 \<Rightarrow>
                  (case os_rename (os_write fs2 (temp_path ?p ?r ?i) ((\<lambda>b. b) ''frame''))
                          (temp_path ?p ?r ?i) (object_path ?p ?i) of
                     Inl e3 \<Rightarrow> Inl (OSError e3, os_write fs2 (temp_path ?p ?r ?i) ((\<lambda>b. b) ''frame''))
                   | Inr fs3 \<Rightarrow> Inr fs3)))
       = Inr ?fs"
    by code_simp
  note a = write_object_first_open_fails [of example_denied_fs ?p ?r ?i EACCES "\<lambda>b. b" "''frame''",
      THEN conjunct1, THEN mp, OF o]
  note b = write_object_first_open_fails [of example_fs ?p ?r ?i EACCES "\<lambda>b. b" "''frame''",
      THEN conjunct2, THEN mp, OF n]
  show ?thesis using o n a b [unfolded r] by (intro conjI) simp_all
qed

section \<open>Tree serialization\<close>

subsection \<open>The loop over the entries\<close>

lemma entry_output_error:
  "entry_output x = Inl e \<Longrightarrow> e = ValueError \<or> e = UnicodeEncodeError"
  using fromhex_error encode_error by (auto simp: entry_output_def split: sum.splits)

lemma entry_output_bad_name:
  "\<exists>c\<in>set (Entry_name x). surrogate c \<Longrightarrow> entry_output x = Inl UnicodeEncodeError"
  using encode_fails_iff [of "Entry_name x"] by (simp add: entry_output_def)

lemma entry_output_good_name:
  assumes "\<forall>c\<in>set (Entry_name x). \<not> surrogate c" "entry_output x = Inl e"
  shows "e = ValueError"
proof -
  obtain b where "encode (Entry_name x) = Inr b"
    using assms(1) encode_succeeds_iff [of "Entry_name x"] by blast
  then show ?thesis using assms(2) fromhex_error by (auto simp: entry_output_def split: sum.splits)
qed

lemma entry_outputs_error:
  "entry_outputs es = Inl e \<Longrightarrow> \<exists>x\<in>set es. entry_output x = Inl e"
proof (induction es)
  case Nil
  then show ?case by simp
next
  case (Cons x es)
  then show ?case by (auto split: sum.splits)
qed

lemma entry_outputs_fail:
  "\<exists>x\<in>set es. \<exists>e. entry_output x = Inl e \<Longrightarrow> \<exists>e. entry_outputs es = Inl e"
proof (induction es)
  case Nil
  then show ?case by simp
next
  case (Cons x es)
  show ?case
  proof (cases "entry_output x")
    case (Inl e)
    then show ?thesis by simp
  next
    case (Inr out)
    then have "\<exists>y\<in>set es. \<exists>e. entry_output y = Inl e" using Cons.prems by auto
    then obtain e where "entry_outputs es = Inl e" using Cons.IH by blast
    then show ?thesis using Inr by simp
  qed
qed

lemma entry_outputs_ok:
  "\<forall>x\<in>set es. \<exists>out. entry_output x = Inr out \<Longrightarrow> \<exists>outs. entry_outputs es = Inr outs"
proof (induction es)
  case Nil
  then show ?case by simp
next
  case (Cons x es)
  then obtain out outs where "entry_output x = Inr out" "entry_outputs es = Inr outs" by auto
  then show ?case by simp
qed

lemma Tree_serialize_error:
  assumes "Tree_serialize es = Inl e"
  shows "\<exists>x\<in>set es. entry_output x = Inl e"
proof -
  have "entry_outputs (sort_key Entry_name es) = Inl e"
    using assms by (simp add: Tree_serialize_def split: sum.splits)
  from entry_outputs_error [OF this] show ?thesis by simp
qed

lemma Tree_serialize_fail:
  assumes "\<exists>x\<in>set es. \<exists>e. entry_output x = Inl e"
  shows "\<exists>e. Tree_serialize es = Inl e \<and> (e = ValueError \<or> e = UnicodeEncodeError)"
proof -
  have "\<exists>x\<in>set (sort_key Entry_name es). \<exists>e. entry_output x = Inl e" using assms by simp
  from entry_outputs_fail [OF this] obtain e where
    e: "entry_outputs (sort_key Entry_name es) = Inl e" by blast
  then have t: "Tree_serialize es = Inl e" by (simp add: Tree_serialize_def)
  from Tree_serialize_error [OF t] entry_output_error have "e = ValueError \<or> e = UnicodeEncodeError"
    by blast
  then show ?thesis using t by blast
qed

lemma Tree_serialize_ok:
  assumes "\<forall>x\<in>set es. \<exists>out. entry_output x = Inr out"
  shows "\<exists>bs. Tree_serialize es = Inr bs"
proof -
  have "\<forall>x\<in>set (sort_key Entry_name es). \<exists>out. entry_output x = Inr out" using assms by simp
  from entry_outputs_ok [OF this] show ?thesis by (auto simp: Tree_serialize_def)
qed

lemma bad_id_fromhex:
  assumes "(\<exists>c\<in>set i. c \<notin> set (ascii ''0123456789abcdefABCDEF'') \<and>
              c \<notin> set [32, 9, 10, 11, 12, 13])
           \<or> (set i \<subseteq> set (ascii ''0123456789abcdefABCDEF'') \<and> odd (length i))"
  shows "fromhex i = Inl ValueError"
  using assms
proof
  assume "\<exists>c\<in>set i. c \<notin> set (ascii ''0123456789abcdefABCDEF'') \<and>
              c \<notin> set [32, 9, 10, 11, 12, 13]"
  then have "\<exists>c\<in>set i. hexval c = None \<and> \<not> isspace c"
    using hexval_Some_hexchar isspace_whitespace by blast
  then show ?thesis by (rule fromhex_bad_char)
next
  assume a: "set i \<subseteq> set (ascii ''0123456789abcdefABCDEF'') \<and> odd (length i)"
  then have "\<forall>c\<in>set i. hexval c \<noteq> None" using hexval_of_hexchar by blast
  from fromhex_hex [OF this] a show ?thesis by simp
qed

lemma bad_id_entry_output:
  assumes "(\<exists>c\<in>set (Entry_id x). c \<notin> set (ascii ''0123456789abcdefABCDEF'') \<and>
              c \<notin> set [32, 9, 10, 11, 12, 13])
           \<or> (set (Entry_id x) \<subseteq> set (ascii ''0123456789abcdefABCDEF'') \<and>
               odd (length (Entry_id x)))"
  shows "\<exists>e. entry_output x = Inl e"
  using bad_id_fromhex [OF assms] by (simp add: entry_output_def split: sum.splits)

lemma even_hex_entry_output:
  assumes "set (Entry_id x) \<subseteq> set (ascii ''0123456789abcdefABCDEF'')"
    "even (length (Entry_id x))" "\<forall>c\<in>set (Entry_name x). \<not> surrogate c"
  shows "\<exists>out. entry_output x = Inr out"
proof -
  obtain b where b: "encode (Entry_name x) = Inr b"
    using assms(3) encode_succeeds_iff [of "Entry_name x"] by blast
  have "\<forall>c\<in>set (Entry_id x). hexval c \<noteq> None" using assms(1) hexval_of_hexchar by blast
  from fromhex_hex [OF this] assms(2) b show ?thesis by (auto simp: entry_output_def)
qed

lemma store_Tree_fails:
  "Tree_serialize es = Inl e \<Longrightarrow>
     store sha1 zc pathname rnd (new_Tree es) fs = Inl (e, new_Tree es, fs)"
  by (rule store_fails_early) (simp add: new_Tree_def)

lemma store_Tree_cong:
  assumes "Tree_serialize es' = Tree_serialize es"
  shows "map_sum (\<lambda>r. (fst r, obj_id (fst (snd r)), snd (snd r)))
                 (\<lambda>r. (fst r, obj_id (fst (snd r)), snd (snd r)))
           (store sha1 zc pathname rnd (new_Tree es') fs)
       = map_sum (\<lambda>r. (fst r, obj_id (fst (snd r)), snd (snd r)))
                 (\<lambda>r. (fst r, obj_id (fst (snd r)), snd (snd r)))
           (store sha1 zc pathname rnd (new_Tree es) fs)"
  using assms by (simp add: store_def new_Tree_def Let_def split: sum.splits prod.splits)

lemma sort_two_names:
  "sort_key Entry_name [\<lparr>Entry_name = ascii ''b.txt'', Entry_id = j\<rparr>,
                        \<lparr>Entry_name = ascii ''a.txt'', Entry_id = i\<rparr>]
     = [\<lparr>Entry_name = ascii ''a.txt'', Entry_id = i\<rparr>,
        \<lparr>Entry_name = ascii ''b.txt'', Entry_id = j\<rparr>]"
  by (simp add: ascii_def)

lemma encode_a_txt: "encode (ascii ''a.txt'') = Inr ''a.txt''"
  by code_simp

lemma encode_b_txt: "encode (ascii ''b.txt'') = Inr ''b.txt''"
  by code_simp

subsection \<open>Malformed entry ids\<close>

text \<open>
  C5, as amended. \<open>Tree.serialize\<close> fails when the id of an entry holds a character that
  is neither a hexadecimal digit nor ASCII whitespace, or is an odd number of hexadecimal
  digits: with \<open>ValueError\<close> when every name can be encoded, and with \<open>ValueError\<close> or
  \<open>UnicodeEncodeError\<close> otherwise (a name that holds a lone surrogate fails on its own).
  Whenever \<open>Tree.serialize\<close> fails, \<open>store\<close> fails with the same error and returns the
  object and the file system as they were: no id is assigned and nothing is written;
  the result does not depend on the hash function or the compressor. The number of
  digits is not checked: serialization succeeds when every name can be encoded and every
  id is hexadecimal digits of even number, so when every id is 40 of them.
\<close>

theorem Tree_serialize_malformed_id:
  "((\<exists>entry\<in>set es.
        (\<exists>c\<in>set (Entry_id entry). c \<notin> set (ascii ''0123456789abcdefABCDEF'') \<and>
              c \<notin> set [32, 9, 10, 11, 12, 13])
        \<or> (set (Entry_id entry) \<subseteq> set (ascii ''0123456789abcdefABCDEF'') \<and>
            odd (length (Entry_id entry))))
     \<longrightarrow> (\<exists>e. (e = ValueError \<or> e = UnicodeEncodeError) \<and>
              ((\<forall>entry\<in>set es. \<forall>c\<in>set (Entry_name entry). \<not> surrogate c) \<longrightarrow> e = ValueError) \<and>
              Tree_serialize es = Inl e \<and>
              store sha1 zc pathname rnd (new_Tree es) fs = Inl (e, new_Tree es, fs)))
   \<and> ((\<exists>entry\<in>set es. \<exists>c\<in>set (Entry_name entry). surrogate c)
     \<longrightarrow> (\<exists>e. (e = ValueError \<or> e = UnicodeEncodeError) \<and>
              Tree_serialize es = Inl e \<and>
              store sha1 zc pathname rnd (new_Tree es) fs = Inl (e, new_Tree es, fs)))
   \<and> (Tree_serialize es = Inl err \<longrightarrow>
        obj_id (new_Tree es) = None \<and>
        store sha1 zc pathname rnd (new_Tree es) fs = Inl (err, new_Tree es, fs))
   \<and> ((\<forall>entry\<in>set es. set (Entry_id entry) \<subseteq> set (ascii ''0123456789abcdefABCDEF'') \<and>
                          length (Entry_id entry) = 40 \<and>
                          (\<forall>c\<in>set (Entry_name entry). \<not> surrogate c))
       \<longrightarrow> (\<exists>bs. Tree_serialize es = Inr bs))
   \<and> ((\<forall>entry\<in>set es. set (Entry_id entry) \<subseteq> set (ascii ''0123456789abcdefABCDEF'') \<and>
                          even (length (Entry_id entry)) \<and>
                          (\<forall>c\<in>set (Entry_name entry). \<not> surrogate c))
       \<longrightarrow> (\<exists>bs. Tree_serialize es = Inr bs))"
proof (intro conjI impI)
  assume "\<exists>entry\<in>set es.
        (\<exists>c\<in>set (Entry_id entry). c \<notin> set (ascii ''0123456789abcdefABCDEF'') \<and>
              c \<notin> set [32, 9, 10, 11, 12, 13])
        \<or> (set (Entry_id entry) \<subseteq> set (ascii ''0123456789abcdefABCDEF'') \<and>
            odd (length (Entry_id entry)))"
  then have "\<exists>x\<in>set es. \<exists>e. entry_output x = Inl e" using bad_id_entry_output by blast
  from Tree_serialize_fail [OF this] obtain e where
    t: "Tree_serialize es = Inl e" and k: "e = ValueError \<or> e = UnicodeEncodeError" by blast
  have g: "(\<forall>entry\<in>set es. \<forall>c\<in>set (Entry_name entry). \<not> surrogate c) \<longrightarrow> e = ValueError"
    using Tree_serialize_error [OF t] entry_output_good_name by blast
  show "\<exists>e. (e = ValueError \<or> e = UnicodeEncodeError) \<and>
              ((\<forall>entry\<in>set es. \<forall>c\<in>set (Entry_name entry). \<not> surrogate c) \<longrightarrow> e = ValueError) \<and>
              Tree_serialize es = Inl e \<and>
              store sha1 zc pathname rnd (new_Tree es) fs = Inl (e, new_Tree es, fs)"
    using t k g store_Tree_fails [OF t] by blast
next
  assume "\<exists>entry\<in>set es. \<exists>c\<in>set (Entry_name entry). surrogate c"
  then have "\<exists>x\<in>set es. \<exists>e. entry_output x = Inl e" using entry_output_bad_name by blast
  from Tree_serialize_fail [OF this] obtain e where
    t: "Tree_serialize es = Inl e" and k: "e = ValueError \<or> e = UnicodeEncodeError" by blast
  show "\<exists>e. (e = ValueError \<or> e = UnicodeEncodeError) \<and>
              Tree_serialize es = Inl e \<and>
              store sha1 zc pathname rnd (new_Tree es) fs = Inl (e, new_Tree es, fs)"
    using t k store_Tree_fails [OF t] by blast
next
  assume "Tree_serialize es = Inl err"
  then show "store sha1 zc pathname rnd (new_Tree es) fs = Inl (err, new_Tree es, fs)"
    by (rule store_Tree_fails)
next
  show "obj_id (new_Tree es) = None" by (simp add: new_Tree_def)
next
  assume "\<forall>entry\<in>set es. set (Entry_id entry) \<subseteq> set (ascii ''0123456789abcdefABCDEF'') \<and>
                          length (Entry_id entry) = 40 \<and>
                          (\<forall>c\<in>set (Entry_name entry). \<not> surrogate c)"
  then have "\<forall>x\<in>set es. \<exists>out. entry_output x = Inr out"
    using even_hex_entry_output by simp
  then show "\<exists>bs. Tree_serialize es = Inr bs" by (rule Tree_serialize_ok)
next
  assume "\<forall>entry\<in>set es. set (Entry_id entry) \<subseteq> set (ascii ''0123456789abcdefABCDEF'') \<and>
                          even (length (Entry_id entry)) \<and>
                          (\<forall>c\<in>set (Entry_name entry). \<not> surrogate c)"
  then have "\<forall>x\<in>set es. \<exists>out. entry_output x = Inr out"
    using even_hex_entry_output by simp
  then show "\<exists>bs. Tree_serialize es = Inr bs" by (rule Tree_serialize_ok)
qed

theorem Tree_serialize_malformed_id_witness:
  "Tree_serialize [\<lparr>Entry_name = ascii ''f'',
                     Entry_id = ascii ''zz0d0d0d0d0d0d0d0d0d0d0d0d0d0d0d0d0d0d0d''\<rparr>]
     = Inl ValueError
   \<and> store example_sha1 (\<lambda>b. b) (ascii ''/r/.git/objects'') (ascii ''ABC123'')
        (new_Tree [\<lparr>Entry_name = ascii ''f'',
                     Entry_id = ascii ''zz0d0d0d0d0d0d0d0d0d0d0d0d0d0d0d0d0d0d0d''\<rparr>])
        example_fs
     = Inl (ValueError,
            new_Tree [\<lparr>Entry_name = ascii ''f'',
                        Entry_id = ascii ''zz0d0d0d0d0d0d0d0d0d0d0d0d0d0d0d0d0d0d0d''\<rparr>],
            example_fs)
   \<and> Tree_serialize [\<lparr>Entry_name = ascii ''f'', Entry_id = ascii ''0d0''\<rparr>] = Inl ValueError
   \<and> Tree_serialize [\<lparr>Entry_name = [102, 0xDC80],
                       Entry_id = ascii ''0d0d0d0d0d0d0d0d0d0d0d0d0d0d0d0d0d0d0d0d''\<rparr>]
     = Inl UnicodeEncodeError
   \<and> store example_sha1 (\<lambda>b. b) (ascii ''/r/.git/objects'') (ascii ''ABC123'')
        (new_Tree [\<lparr>Entry_name = [102, 0xDC80],
                     Entry_id = ascii ''0d0d0d0d0d0d0d0d0d0d0d0d0d0d0d0d0d0d0d0d''\<rparr>])
        example_fs
     = Inl (UnicodeEncodeError,
            new_Tree [\<lparr>Entry_name = [102, 0xDC80],
                        Entry_id = ascii ''0d0d0d0d0d0d0d0d0d0d0d0d0d0d0d0d0d0d0d0d''\<rparr>],
            example_fs)
   \<and> (\<exists>bs. Tree_serialize
              [\<lparr>Entry_name = ascii ''f'',
                 Entry_id = ascii ''0d0d0d0d0d0d0d0d0d0d0d0d0d0d0d0d0d0d0d0d''\<rparr>]
            = Inr bs)
   \<and> (\<exists>bs. Tree_serialize [\<lparr>Entry_name = ascii ''f'', Entry_id = ascii ''0d0D''\<rparr>] = Inr bs)"
proof -
  let ?zz = "[\<lparr>Entry_name = ascii ''f'',
               Entry_id = ascii ''zz0d0d0d0d0d0d0d0d0d0d0d0d0d0d0d0d0d0d0d''\<rparr>]"
  let ?odd = "[\<lparr>Entry_name = ascii ''f'', Entry_id = ascii ''0d0''\<rparr>]"
  let ?sur = "[\<lparr>Entry_name = [102, 0xDC80],
                Entry_id = ascii ''0d0d0d0d0d0d0d0d0d0d0d0d0d0d0d0d0d0d0d0d''\<rparr>]"
  let ?ok = "[\<lparr>Entry_name = ascii ''f'',
               Entry_id = ascii ''0d0d0d0d0d0d0d0d0d0d0d0d0d0d0d0d0d0d0d0d''\<rparr>]"
  let ?short = "[\<lparr>Entry_name = ascii ''f'', Entry_id = ascii ''0d0D''\<rparr>]"
  have a: "\<exists>entry\<in>set ?zz.
        (\<exists>c\<in>set (Entry_id entry). c \<notin> set (ascii ''0123456789abcdefABCDEF'') \<and>
              c \<notin> set [32, 9, 10, 11, 12, 13])
        \<or> (set (Entry_id entry) \<subseteq> set (ascii ''0123456789abcdefABCDEF'') \<and>
            odd (length (Entry_id entry)))"
    by code_simp
  have an: "\<forall>entry\<in>set ?zz. \<forall>c\<in>set (Entry_name entry). \<not> surrogate c"
    by code_simp
  have b: "\<exists>entry\<in>set ?odd.
        (\<exists>c\<in>set (Entry_id entry). c \<notin> set (ascii ''0123456789abcdefABCDEF'') \<and>
              c \<notin> set [32, 9, 10, 11, 12, 13])
        \<or> (set (Entry_id entry) \<subseteq> set (ascii ''0123456789abcdefABCDEF'') \<and>
            odd (length (Entry_id entry)))"
    by code_simp
  have bn: "\<forall>entry\<in>set ?odd. \<forall>c\<in>set (Entry_name entry). \<not> surrogate c"
    by code_simp
  have s: "\<exists>entry\<in>set ?sur. \<exists>c\<in>set (Entry_name entry). surrogate c"
    by code_simp
  have st: "Tree_serialize ?sur = Inl UnicodeEncodeError"
    by code_simp
  have c: "\<forall>entry\<in>set ?ok. set (Entry_id entry) \<subseteq> set (ascii ''0123456789abcdefABCDEF'') \<and>
             length (Entry_id entry) = 40 \<and> (\<forall>c\<in>set (Entry_name entry). \<not> surrogate c)"
    by code_simp
  have d: "\<forall>entry\<in>set ?short. set (Entry_id entry) \<subseteq> set (ascii ''0123456789abcdefABCDEF'') \<and>
             even (length (Entry_id entry)) \<and> (\<forall>c\<in>set (Entry_name entry). \<not> surrogate c)"
    by code_simp
  have r1: "Tree_serialize ?zz = Inl ValueError \<and>
            store example_sha1 (\<lambda>b. b) (ascii ''/r/.git/objects'') (ascii ''ABC123'')
              (new_Tree ?zz) example_fs = Inl (ValueError, new_Tree ?zz, example_fs)"
    using Tree_serialize_malformed_id [of ?zz example_sha1 "\<lambda>b. b" "ascii ''/r/.git/objects''"
             "ascii ''ABC123''" example_fs, THEN conjunct1, THEN mp, OF a] an by blast
  have r2: "Tree_serialize ?odd = Inl ValueError"
    using Tree_serialize_malformed_id [of ?odd example_sha1 "\<lambda>b. b" "ascii ''/r/.git/objects''"
             "ascii ''ABC123''" example_fs, THEN conjunct1, THEN mp, OF b] bn by blast
  have r3: "\<exists>e. Tree_serialize ?sur = Inl e"
    using Tree_serialize_malformed_id [of ?sur example_sha1 "\<lambda>b. b" "ascii ''/r/.git/objects''"
             "ascii ''ABC123''" example_fs, THEN conjunct2, THEN conjunct1, THEN mp, OF s] by blast
  have r4: "store example_sha1 (\<lambda>b. b) (ascii ''/r/.git/objects'') (ascii ''ABC123'')
              (new_Tree ?sur) example_fs = Inl (UnicodeEncodeError, new_Tree ?sur, example_fs)"
    using Tree_serialize_malformed_id [of ?sur example_sha1 "\<lambda>b. b" "ascii ''/r/.git/objects''"
             "ascii ''ABC123''" example_fs UnicodeEncodeError, THEN conjunct2, THEN conjunct2, THEN conjunct1,
             THEN mp, OF st] by blast
  have r5: "\<exists>bs. Tree_serialize ?ok = Inr bs"
    using Tree_serialize_malformed_id [of ?ok example_sha1 "\<lambda>b. b" "ascii ''/r/.git/objects''"
             "ascii ''ABC123''" example_fs, THEN conjunct2, THEN conjunct2, THEN conjunct2, THEN conjunct1,
             THEN mp, OF c] .
  have r6: "\<exists>bs. Tree_serialize ?short = Inr bs"
    using Tree_serialize_malformed_id [of ?short example_sha1 "\<lambda>b. b" "ascii ''/r/.git/objects''"
             "ascii ''ABC123''" example_fs, THEN conjunct2, THEN conjunct2, THEN conjunct2, THEN conjunct2,
             THEN mp, OF d] .
  show ?thesis using r1 r2 r3 st r4 r5 r6 by (intro conjI) blast+
qed

text \<open>
  The claim as stated fails in three ways. An id of two hexadecimal digits is not of the
  digest's length, and the tree serializes, with one byte for the id. An id that holds
  ASCII whitespace between its pairs of digits is not valid hexadecimal, and the tree
  serializes. And a tree whose only id is 40 hexadecimal digits does not serialize when
  the name of the entry cannot be encoded.
\<close>

theorem Tree_serialize_id_counterexample:
  "Tree_serialize [\<lparr>Entry_name = ascii ''f'', Entry_id = ascii ''ab''\<rparr>]
     = Inr (''100644 f'' @ [CHR 0x00, CHR 0xAB])
   \<and> length (Entry_id \<lparr>Entry_name = ascii ''f'', Entry_id = ascii ''ab''\<rparr>) \<noteq> 40
   \<and> Tree_serialize [\<lparr>Entry_name = ascii ''f'', Entry_id = [48, 100, 32, 48, 68, 10]\<rparr>]
     = Inr (''100644 f'' @ [CHR 0x00, CHR 0x0D, CHR 0x0D])
   \<and> [48, 100, 32, 48, 68, 10] = ascii (''0d 0D'' @ [CHR 0x0A])
   \<and> Tree_serialize [\<lparr>Entry_name = [102, 0xDC80],
                       Entry_id = ascii ''0d0d0d0d0d0d0d0d0d0d0d0d0d0d0d0d0d0d0d0d''\<rparr>]
     = Inl UnicodeEncodeError
   \<and> length (ascii ''0d0d0d0d0d0d0d0d0d0d0d0d0d0d0d0d0d0d0d0d'') = 40
   \<and> set (ascii ''0d0d0d0d0d0d0d0d0d0d0d0d0d0d0d0d0d0d0d0d'')
       \<subseteq> set (ascii ''0123456789abcdefABCDEF'')"
  by code_simp

subsection \<open>The order of the entries\<close>

text \<open>
  C2, as amended. For entries with pairwise distinct names, every order of the same
  entries serializes to the same result, so \<open>store\<close> ends the same way, with the same id and
  the same files; the entries are emitted in strictly ascending order of their names. In
  general the entries are emitted in ascending order of their names, and the entries
  that share a name are emitted in the order in which they were given. A tree built from
  \<open>b.txt\<close> and then \<open>a.txt\<close> emits the entry of \<open>a.txt\<close> first; a tree with two entries of
  the name \<open>a.txt\<close> emits the one given first before the other.
\<close>

theorem Tree_serialize_order_independent:
  "(distinct (map Entry_name es) \<and> mset es' = mset es \<longrightarrow>
      Tree_serialize es' = Tree_serialize es
      \<and> map_sum (\<lambda>r. (fst r, obj_id (fst (snd r)), snd (snd r)))
                (\<lambda>r. (fst r, obj_id (fst (snd r)), snd (snd r)))
            (store sha1 zc pathname rnd (new_Tree es') fs)
        = map_sum (\<lambda>r. (fst r, obj_id (fst (snd r)), snd (snd r)))
                  (\<lambda>r. (fst r, obj_id (fst (snd r)), snd (snd r)))
            (store sha1 zc pathname rnd (new_Tree es) fs)
      \<and> (\<exists>ss. mset ss = mset es \<and> sorted_wrt (<) (map Entry_name ss) \<and>
            Tree_serialize es =
              (case entry_outputs ss of Inl e \<Rightarrow> Inl e | Inr outs \<Rightarrow> Inr (concat outs))))
   \<and> (\<exists>ss. mset ss = mset es \<and> sorted (map Entry_name ss) \<and>
         (\<forall>n. filter (\<lambda>x. Entry_name x = n) ss = filter (\<lambda>x. Entry_name x = n) es) \<and>
         Tree_serialize es =
           (case entry_outputs ss of Inl e \<Rightarrow> Inl e | Inr outs \<Rightarrow> Inr (concat outs)))
   \<and> (fromhex id_A = Inr a \<and> fromhex id_B = Inr b \<longrightarrow>
        Tree_serialize [\<lparr>Entry_name = ascii ''b.txt'', Entry_id = id_B\<rparr>,
                        \<lparr>Entry_name = ascii ''a.txt'', Entry_id = id_A\<rparr>]
          = Inr (''100644 a.txt'' @ [CHR 0x00] @ a @ ''100644 b.txt'' @ [CHR 0x00] @ b)
        \<and> Tree_serialize [\<lparr>Entry_name = ascii ''a.txt'', Entry_id = id_A\<rparr>,
                          \<lparr>Entry_name = ascii ''a.txt'', Entry_id = id_B\<rparr>]
          = Inr (''100644 a.txt'' @ [CHR 0x00] @ a @ ''100644 a.txt'' @ [CHR 0x00] @ b)
        \<and> Tree_serialize [\<lparr>Entry_name = ascii ''a.txt'', Entry_id = id_B\<rparr>,
                          \<lparr>Entry_name = ascii ''a.txt'', Entry_id = id_A\<rparr>]
          = Inr (''100644 a.txt'' @ [CHR 0x00] @ b @ ''100644 a.txt'' @ [CHR 0x00] @ a))"
proof (intro conjI impI)
  assume h: "distinct (map Entry_name es) \<and> mset es' = mset es"
  then have d: "distinct (map Entry_name es)" and m: "mset es' = mset es" by simp_all
  have s: "sort_key Entry_name es' = sort_key Entry_name es"
    using sort_key_perm [OF d m] .
  then show t: "Tree_serialize es' = Tree_serialize es" by (simp add: Tree_serialize_def)
  show "map_sum (\<lambda>r. (fst r, obj_id (fst (snd r)), snd (snd r)))
                (\<lambda>r. (fst r, obj_id (fst (snd r)), snd (snd r)))
            (store sha1 zc pathname rnd (new_Tree es') fs)
        = map_sum (\<lambda>r. (fst r, obj_id (fst (snd r)), snd (snd r)))
                  (\<lambda>r. (fst r, obj_id (fst (snd r)), snd (snd r)))
            (store sha1 zc pathname rnd (new_Tree es) fs)"
    using t by (rule store_Tree_cong)
  have "distinct (map Entry_name (sort_key Entry_name es))"
    using distinct_map_mset [of "sort_key Entry_name es" es Entry_name] d by simp
  then have "sorted_wrt (<) (map Entry_name (sort_key Entry_name es))"
    by (simp add: strict_sorted_iff)
  then show "\<exists>ss. mset ss = mset es \<and> sorted_wrt (<) (map Entry_name ss) \<and>
           Tree_serialize es =
             (case entry_outputs ss of Inl e \<Rightarrow> Inl e | Inr outs \<Rightarrow> Inr (concat outs))"
    by (intro exI [of _ "sort_key Entry_name es"]) (simp add: Tree_serialize_def)
next
  have "\<forall>n. filter (\<lambda>x. Entry_name x = n) (sort_key Entry_name es)
            = filter (\<lambda>x. Entry_name x = n) es"
    by (simp add: sort_key_stable)
  then show "\<exists>ss. mset ss = mset es \<and> sorted (map Entry_name ss) \<and>
         (\<forall>n. filter (\<lambda>x. Entry_name x = n) ss = filter (\<lambda>x. Entry_name x = n) es) \<and>
         Tree_serialize es =
           (case entry_outputs ss of Inl e \<Rightarrow> Inl e | Inr outs \<Rightarrow> Inr (concat outs))"
    by (intro exI [of _ "sort_key Entry_name es"]) (simp add: Tree_serialize_def)
next
  assume f: "fromhex id_A = Inr a \<and> fromhex id_B = Inr b"
  show "Tree_serialize [\<lparr>Entry_name = ascii ''b.txt'', Entry_id = id_B\<rparr>,
                        \<lparr>Entry_name = ascii ''a.txt'', Entry_id = id_A\<rparr>]
          = Inr (''100644 a.txt'' @ [CHR 0x00] @ a @ ''100644 b.txt'' @ [CHR 0x00] @ b)"
    unfolding Tree_serialize_def sort_two_names
    using f by (simp add: entry_output_def encode_a_txt encode_b_txt MODE_def)
  show "Tree_serialize [\<lparr>Entry_name = ascii ''a.txt'', Entry_id = id_A\<rparr>,
                          \<lparr>Entry_name = ascii ''a.txt'', Entry_id = id_B\<rparr>]
          = Inr (''100644 a.txt'' @ [CHR 0x00] @ a @ ''100644 a.txt'' @ [CHR 0x00] @ b)"
    using f by (simp add: Tree_serialize_def entry_output_def encode_a_txt MODE_def)
  show "Tree_serialize [\<lparr>Entry_name = ascii ''a.txt'', Entry_id = id_B\<rparr>,
                          \<lparr>Entry_name = ascii ''a.txt'', Entry_id = id_A\<rparr>]
          = Inr (''100644 a.txt'' @ [CHR 0x00] @ b @ ''100644 a.txt'' @ [CHR 0x00] @ a)"
    using f by (simp add: Tree_serialize_def entry_output_def encode_a_txt MODE_def)
qed

theorem Tree_serialize_order_independent_witness:
  "distinct (map Entry_name
       [\<lparr>Entry_name = ascii ''b.txt'', Entry_id = ascii ''0c0c0c0c0c0c0c0c0c0c0c0c0c0c0c0c0c0c0c0c''\<rparr>,
        \<lparr>Entry_name = ascii ''a.txt'', Entry_id = ascii ''0d0d0d0d0d0d0d0d0d0d0d0d0d0d0d0d0d0d0d0d''\<rparr>])
   \<and> mset [\<lparr>Entry_name = ascii ''a.txt'', Entry_id = ascii ''0d0d0d0d0d0d0d0d0d0d0d0d0d0d0d0d0d0d0d0d''\<rparr>,
            \<lparr>Entry_name = ascii ''b.txt'', Entry_id = ascii ''0c0c0c0c0c0c0c0c0c0c0c0c0c0c0c0c0c0c0c0c''\<rparr>]
     = mset [\<lparr>Entry_name = ascii ''b.txt'', Entry_id = ascii ''0c0c0c0c0c0c0c0c0c0c0c0c0c0c0c0c0c0c0c0c''\<rparr>,
             \<lparr>Entry_name = ascii ''a.txt'', Entry_id = ascii ''0d0d0d0d0d0d0d0d0d0d0d0d0d0d0d0d0d0d0d0d''\<rparr>]
   \<and> Tree_serialize
        [\<lparr>Entry_name = ascii ''a.txt'', Entry_id = ascii ''0d0d0d0d0d0d0d0d0d0d0d0d0d0d0d0d0d0d0d0d''\<rparr>,
         \<lparr>Entry_name = ascii ''b.txt'', Entry_id = ascii ''0c0c0c0c0c0c0c0c0c0c0c0c0c0c0c0c0c0c0c0c''\<rparr>]
     = Tree_serialize
        [\<lparr>Entry_name = ascii ''b.txt'', Entry_id = ascii ''0c0c0c0c0c0c0c0c0c0c0c0c0c0c0c0c0c0c0c0c''\<rparr>,
         \<lparr>Entry_name = ascii ''a.txt'', Entry_id = ascii ''0d0d0d0d0d0d0d0d0d0d0d0d0d0d0d0d0d0d0d0d''\<rparr>]
   \<and> Tree_serialize
        [\<lparr>Entry_name = ascii ''b.txt'', Entry_id = ascii ''0c0c0c0c0c0c0c0c0c0c0c0c0c0c0c0c0c0c0c0c''\<rparr>,
         \<lparr>Entry_name = ascii ''a.txt'', Entry_id = ascii ''0d0d0d0d0d0d0d0d0d0d0d0d0d0d0d0d0d0d0d0d''\<rparr>]
     = Inr (''100644 a.txt'' @ [CHR 0x00] @ replicate 20 (CHR 0x0D) @
            ''100644 b.txt'' @ [CHR 0x00] @ replicate 20 (CHR 0x0C))
   \<and> Tree_serialize
        [\<lparr>Entry_name = ascii ''a.txt'', Entry_id = ascii ''0d0d0d0d0d0d0d0d0d0d0d0d0d0d0d0d0d0d0d0d''\<rparr>,
         \<lparr>Entry_name = ascii ''a.txt'', Entry_id = ascii ''0c0c0c0c0c0c0c0c0c0c0c0c0c0c0c0c0c0c0c0c''\<rparr>]
     = Inr (''100644 a.txt'' @ [CHR 0x00] @ replicate 20 (CHR 0x0D) @
            ''100644 a.txt'' @ [CHR 0x00] @ replicate 20 (CHR 0x0C))"
proof -
  let ?A = "ascii ''0d0d0d0d0d0d0d0d0d0d0d0d0d0d0d0d0d0d0d0d''"
  let ?B = "ascii ''0c0c0c0c0c0c0c0c0c0c0c0c0c0c0c0c0c0c0c0c''"
  let ?es = "[\<lparr>Entry_name = ascii ''b.txt'', Entry_id = ?B\<rparr>,
              \<lparr>Entry_name = ascii ''a.txt'', Entry_id = ?A\<rparr>]"
  let ?es' = "[\<lparr>Entry_name = ascii ''a.txt'', Entry_id = ?A\<rparr>,
               \<lparr>Entry_name = ascii ''b.txt'', Entry_id = ?B\<rparr>]"
  have d: "distinct (map Entry_name ?es)"
    by code_simp
  have m: "mset ?es' = mset ?es"
    by simp
  have f: "fromhex ?A = Inr (replicate 20 (CHR 0x0D)) \<and> fromhex ?B = Inr (replicate 20 (CHR 0x0C))"
    by code_simp
  note t = Tree_serialize_order_independent [of ?es ?es' example_sha1 "\<lambda>b. b"
      "ascii ''/r/.git/objects''" "ascii ''ABC123''" example_fs ?A "replicate 20 (CHR 0x0D)"
      ?B "replicate 20 (CHR 0x0C)"]
  have r1: "Tree_serialize ?es' = Tree_serialize ?es"
    using t [THEN conjunct1, THEN mp, OF conjI, OF d m] by blast
  note r2 = t [THEN conjunct2, THEN conjunct2, THEN mp, OF f]
  show ?thesis using d m r1 r2 by (intro conjI) blast+
qed

text \<open>
  The claim as stated fails: two entries of the same name keep the order in which they
  were given (the sort is stable), so the two orders serialize differently.
\<close>

theorem Tree_serialize_same_name_counterexample:
  "mset [\<lparr>Entry_name = ascii ''a.txt'', Entry_id = ascii ''0d0d0d0d0d0d0d0d0d0d0d0d0d0d0d0d0d0d0d0d''\<rparr>,
         \<lparr>Entry_name = ascii ''a.txt'', Entry_id = ascii ''0c0c0c0c0c0c0c0c0c0c0c0c0c0c0c0c0c0c0c0c''\<rparr>]
   = mset [\<lparr>Entry_name = ascii ''a.txt'', Entry_id = ascii ''0c0c0c0c0c0c0c0c0c0c0c0c0c0c0c0c0c0c0c0c''\<rparr>,
           \<lparr>Entry_name = ascii ''a.txt'', Entry_id = ascii ''0d0d0d0d0d0d0d0d0d0d0d0d0d0d0d0d0d0d0d0d''\<rparr>]
   \<and> Tree_serialize
        [\<lparr>Entry_name = ascii ''a.txt'', Entry_id = ascii ''0d0d0d0d0d0d0d0d0d0d0d0d0d0d0d0d0d0d0d0d''\<rparr>,
         \<lparr>Entry_name = ascii ''a.txt'', Entry_id = ascii ''0c0c0c0c0c0c0c0c0c0c0c0c0c0c0c0c0c0c0c0c''\<rparr>]
     \<noteq> Tree_serialize
        [\<lparr>Entry_name = ascii ''a.txt'', Entry_id = ascii ''0c0c0c0c0c0c0c0c0c0c0c0c0c0c0c0c0c0c0c0c''\<rparr>,
         \<lparr>Entry_name = ascii ''a.txt'', Entry_id = ascii ''0d0d0d0d0d0d0d0d0d0d0d0d0d0d0d0d0d0d0d0d''\<rparr>]"
proof -
  have "Tree_serialize
        [\<lparr>Entry_name = ascii ''a.txt'', Entry_id = ascii ''0d0d0d0d0d0d0d0d0d0d0d0d0d0d0d0d0d0d0d0d''\<rparr>,
         \<lparr>Entry_name = ascii ''a.txt'', Entry_id = ascii ''0c0c0c0c0c0c0c0c0c0c0c0c0c0c0c0c0c0c0c0c''\<rparr>]
     \<noteq> Tree_serialize
        [\<lparr>Entry_name = ascii ''a.txt'', Entry_id = ascii ''0c0c0c0c0c0c0c0c0c0c0c0c0c0c0c0c0c0c0c0c''\<rparr>,
         \<lparr>Entry_name = ascii ''a.txt'', Entry_id = ascii ''0d0d0d0d0d0d0d0d0d0d0d0d0d0d0d0d0d0d0d0d''\<rparr>]"
    by code_simp
  then show ?thesis by simp
qed

section \<open>\<open>init\<close>\<close>

lemma init_cases:
  "init root_path fs =
     (case os_mkdir fs (path_join root_path [ascii ''.git'']) of
        Inl e \<Rightarrow> (fs, init_failed)
      | Inr fs1 \<Rightarrow>
          (case os_mkdir fs1 (path_join (path_join root_path [ascii ''.git'']) [ascii ''objects'']) of
             Inl e \<Rightarrow> (fs1, init_failed)
           | Inr fs2 \<Rightarrow>
               (case os_mkdir fs2 (path_join (path_join root_path [ascii ''.git'']) [ascii ''refs'']) of
                  Inl e \<Rightarrow> (fs2, init_failed)
                | Inr fs3 \<Rightarrow>
                    (fs3, \<lparr>exit_code = 0,
                           stdout = ascii ''Initialized empty Pit repository in '' @ root_path,
                           stderr = []\<rparr>))))"
  by (simp add: init_def Let_def del: path_join.simps split: sum.splits)

lemma os_mkdir_Inr: "os_mkdir fs p = Inr fs1 \<Longrightarrow> fs1 = fs\<lparr>dirs := p # dirs fs\<rparr>"
  by (auto simp: os_mkdir_def split: if_splits)

lemma os_mkdir_exists: "p \<in> set (dirs fs) \<Longrightarrow> \<exists>e. os_mkdir fs p = Inl e"
  by (simp add: os_mkdir_def)

lemma os_mkdir_denied: "os_dirname p \<in> set (denied fs) \<Longrightarrow> \<exists>e. os_mkdir fs p = Inl e"
  by (simp add: os_mkdir_def)

text \<open>
  C9. \<open>init\<close> ends with exit code 1 and the message \<open>Unable to initialize git paths\<close> on
  the error stream when \<open>.git\<close> is already a directory of the root, when nothing may be
  created in the root, and whenever one of the three \<open>mkdir\<close> calls fails. In every other
  case it has created \<open>.git\<close>, \<open>.git/objects\<close> and \<open>.git/refs\<close> under the root, printed
  \<open>Initialized empty Pit repository in\<close> and the root's path, and ends with exit code 0.
\<close>

theorem init_outcome:
  "(path_join root_path [ascii ''.git''] \<in> set (dirs fs) \<longrightarrow>
      init root_path fs = (fs, init_failed))
   \<and> (os_dirname (path_join root_path [ascii ''.git'']) \<in> set (denied fs) \<longrightarrow>
        init root_path fs = (fs, init_failed))
   \<and> ((\<exists>e. os_mkdir fs (path_join root_path [ascii ''.git'']) = Inl e) \<longrightarrow>
        init root_path fs = (fs, init_failed))
   \<and> (os_mkdir fs (path_join root_path [ascii ''.git'']) = Inr fs1 \<and>
        (\<exists>e. os_mkdir fs1 (path_join (path_join root_path [ascii ''.git'']) [ascii ''objects''])
               = Inl e) \<longrightarrow>
        snd (init root_path fs) = init_failed)
   \<and> (os_mkdir fs (path_join root_path [ascii ''.git'']) = Inr fs1 \<and>
        os_mkdir fs1 (path_join (path_join root_path [ascii ''.git'']) [ascii ''objects''])
          = Inr fs2 \<and>
        (\<exists>e. os_mkdir fs2 (path_join (path_join root_path [ascii ''.git'']) [ascii ''refs''])
               = Inl e) \<longrightarrow>
        snd (init root_path fs) = init_failed)
   \<and> (snd (init root_path fs) \<noteq> init_failed \<longrightarrow>
        init root_path fs =
          (fs\<lparr>dirs := [path_join (path_join root_path [ascii ''.git'']) [ascii ''refs''],
                         path_join (path_join root_path [ascii ''.git'']) [ascii ''objects''],
                         path_join root_path [ascii ''.git'']] @ dirs fs\<rparr>,
           \<lparr>exit_code = 0,
              stdout = ascii ''Initialized empty Pit repository in '' @ root_path,
              stderr = []\<rparr>))
   \<and> exit_code init_failed = 1
   \<and> stdout init_failed = []
   \<and> stderr init_failed = ascii ''Unable to initialize git paths''
   \<and> (root_path \<noteq> [] \<and> last root_path \<noteq> sep \<longrightarrow>
        path_join root_path [ascii ''.git''] = root_path @ ascii ''/.git'' \<and>
        path_join (path_join root_path [ascii ''.git'']) [ascii ''objects'']
          = root_path @ ascii ''/.git/objects'' \<and>
        path_join (path_join root_path [ascii ''.git'']) [ascii ''refs'']
          = root_path @ ascii ''/.git/refs'')"
proof -
  let ?git = "path_join root_path [ascii ''.git'']"
  let ?objects = "path_join ?git [ascii ''objects'']"
  let ?refs = "path_join ?git [ascii ''refs'']"
  have c1: "?git \<in> set (dirs fs) \<longrightarrow> init root_path fs = (fs, init_failed)"
    using os_mkdir_exists [of ?git fs] by (auto simp: init_cases simp del: path_join.simps)
  have c2: "os_dirname ?git \<in> set (denied fs) \<longrightarrow> init root_path fs = (fs, init_failed)"
    using os_mkdir_denied [of ?git fs] by (auto simp: init_cases simp del: path_join.simps)
  have c3: "(\<exists>e. os_mkdir fs ?git = Inl e) \<longrightarrow> init root_path fs = (fs, init_failed)"
    by (auto simp: init_cases simp del: path_join.simps)
  have c4: "os_mkdir fs ?git = Inr fs1 \<and> (\<exists>e. os_mkdir fs1 ?objects = Inl e) \<longrightarrow>
        snd (init root_path fs) = init_failed"
    by (auto simp: init_cases simp del: path_join.simps)
  have c5: "os_mkdir fs ?git = Inr fs1 \<and> os_mkdir fs1 ?objects = Inr fs2 \<and>
        (\<exists>e. os_mkdir fs2 ?refs = Inl e) \<longrightarrow> snd (init root_path fs) = init_failed"
    by (auto simp: init_cases simp del: path_join.simps)
  have c6: "snd (init root_path fs) \<noteq> init_failed \<longrightarrow>
        init root_path fs =
          (fs\<lparr>dirs := [?refs, ?objects, ?git] @ dirs fs\<rparr>,
           \<lparr>exit_code = 0,
              stdout = ascii ''Initialized empty Pit repository in '' @ root_path,
              stderr = []\<rparr>)"
  proof
    assume a: "snd (init root_path fs) \<noteq> init_failed"
    then obtain f1 where m1: "os_mkdir fs ?git = Inr f1"
      by (cases "os_mkdir fs ?git") (auto simp: init_cases simp del: path_join.simps)
    from a m1 obtain f2 where m2: "os_mkdir f1 ?objects = Inr f2"
      by (cases "os_mkdir f1 ?objects") (auto simp: init_cases simp del: path_join.simps)
    from a m1 m2 obtain f3 where m3: "os_mkdir f2 ?refs = Inr f3"
      by (cases "os_mkdir f2 ?refs") (auto simp: init_cases simp del: path_join.simps)
    have "f3 = fs\<lparr>dirs := [?refs, ?objects, ?git] @ dirs fs\<rparr>"
      using os_mkdir_Inr [OF m1] os_mkdir_Inr [OF m2] os_mkdir_Inr [OF m3]
      by (simp del: path_join.simps)
    then show "init root_path fs =
          (fs\<lparr>dirs := [?refs, ?objects, ?git] @ dirs fs\<rparr>,
           \<lparr>exit_code = 0,
              stdout = ascii ''Initialized empty Pit repository in '' @ root_path,
              stderr = []\<rparr>)"
      using m1 m2 m3 by (simp add: init_cases del: path_join.simps)
  qed
  have c7: "exit_code init_failed = 1" "stdout init_failed = []"
            "stderr init_failed = ascii ''Unable to initialize git paths''"
    by (simp_all add: init_failed_def)
  have c8: "root_path \<noteq> [] \<and> last root_path \<noteq> sep \<longrightarrow>
        ?git = root_path @ ascii ''/.git'' \<and> ?objects = root_path @ ascii ''/.git/objects'' \<and>
        ?refs = root_path @ ascii ''/.git/refs''"
    by (simp add: startswith_sep_def ascii_def sep_def)
  show ?thesis by (intro conjI c1 c2 c3 c4 c5 c6 c7 c8)
qed

theorem init_outcome_witness:
  "ascii ''/r/.git'' \<in> set (dirs example_fs)
   \<and> init (ascii ''/r'') example_fs = (example_fs, init_failed)
   \<and> os_dirname (ascii ''/r/.git'') \<in> set (denied example_readonly_fs)
   \<and> init (ascii ''/r'') example_readonly_fs = (example_readonly_fs, init_failed)
   \<and> snd (init (ascii ''/r'') example_bare_fs) \<noteq> init_failed
   \<and> init (ascii ''/r'') example_bare_fs =
       (example_bare_fs\<lparr>dirs := [ascii ''/r/.git/refs'', ascii ''/r/.git/objects'',
                                   ascii ''/r/.git''] @ dirs example_bare_fs\<rparr>,
        \<lparr>exit_code = 0, stdout = ascii ''Initialized empty Pit repository in /r'',
           stderr = []\<rparr>)
   \<and> fst (init (ascii ''/r'') example_bare_fs) = example_fs"
proof -
  have p: "path_join (ascii ''/r'') [ascii ''.git''] = ascii ''/r/.git''"
          "path_join (ascii ''/r/.git'') [ascii ''objects''] = ascii ''/r/.git/objects''"
          "path_join (ascii ''/r/.git'') [ascii ''refs''] = ascii ''/r/.git/refs''"
    by code_simp+
  have o: "ascii ''Initialized empty Pit repository in '' @ ascii ''/r''
             = ascii ''Initialized empty Pit repository in /r''"
    by (simp add: ascii_def)
  have h1: "path_join (ascii ''/r'') [ascii ''.git''] \<in> set (dirs example_fs)" by code_simp
  have h2: "os_dirname (path_join (ascii ''/r'') [ascii ''.git'']) \<in> set (denied example_readonly_fs)"
    by code_simp
  have h3: "snd (init (ascii ''/r'') example_bare_fs) \<noteq> init_failed" by code_simp
  have e: "example_bare_fs\<lparr>dirs := [ascii ''/r/.git/refs'', ascii ''/r/.git/objects'',
                                     ascii ''/r/.git''] @ dirs example_bare_fs\<rparr> = example_fs"
    by (simp add: example_bare_fs_def example_fs_def)
  have w1: "init (ascii ''/r'') example_fs = (example_fs, init_failed)"
    using init_outcome [of "ascii ''/r''" example_fs, THEN conjunct1, THEN mp, OF h1] .
  have w2: "init (ascii ''/r'') example_readonly_fs = (example_readonly_fs, init_failed)"
    using init_outcome [of "ascii ''/r''" example_readonly_fs, THEN conjunct2, THEN conjunct1,
            THEN mp, OF h2] .
  note w3 = init_outcome [of "ascii ''/r''" example_bare_fs, THEN conjunct2, THEN conjunct2,
            THEN conjunct2, THEN conjunct2, THEN conjunct2, THEN conjunct1, THEN mp, OF h3,
            unfolded p o]
  have w4: "fst (init (ascii ''/r'') example_bare_fs) = example_fs"
    by (simp only: w3 e fst_conv)
  show ?thesis
    by (intro conjI h1 [unfolded p] w1 h2 [unfolded p] w2 h3 w3 w4)
qed

section \<open>\<open>commit\<close> and \<open>HEAD\<close>\<close>

subsection \<open>The stores leave \<open>HEAD\<close> alone\<close>

lemma store_keeps_head:
  assumes "store sha1 zc (path_join (git_path r) [ascii ''objects'']) rnd ob fs = Inr (v, ob', fs')"
  shows "file_content fs' (path_join (git_path r) [ascii ''HEAD'']) =
         file_content fs (path_join (git_path r) [ascii ''HEAD''])"
proof -
  let ?db = "git_path r @ [sep] @ ascii ''objects''"
  let ?head = "git_path r @ [sep] @ ascii ''HEAD''"
  from store_result [OF assms] obtain dat where
    w: "write_object zc (path_join (git_path r) [ascii ''objects'']) rnd
          (hexdigest (sha1 (frame (obj_type (body ob)) dat)))
          (frame (obj_type (body ob)) dat) fs = Inr fs'"
    by blast
  let ?i = "hexdigest (sha1 (frame (obj_type (body ob)) dat))"
  have p: "?db \<noteq> []" "last ?db \<noteq> sep" using db_path_ends [of r] by simp_all
  obtain s1 where o: "object_path ?db ?i = ?db @ [sep] @ s1"
    using object_under_db [OF p hexdigest_no_sep] by blast
  obtain s2 where t: "temp_path ?db rnd ?i = ?db @ [sep] @ s2"
    using temp_under_db [OF p hexdigest_no_sep] by blast
  have n1: "?head \<noteq> object_path ?db ?i" unfolding o by (simp add: ascii_def)
  have n2: "?head \<noteq> temp_path ?db rnd ?i" unfolding t by (simp add: ascii_def)
  show ?thesis
    using write_object_effect [OF w, of ?head] n1 n2
    by (simp only: db_path_git head_path_git if_False)
qed

lemma store_files_keeps_head:
  "store_files sha1 zc env (path_join (git_path r) [ascii ''objects'']) k names fs = Inr (es, fs') \<Longrightarrow>
     file_content fs' (path_join (git_path r) [ascii ''HEAD'']) =
     file_content fs (path_join (git_path r) [ascii ''HEAD''])"
proof (induction names arbitrary: k fs es fs')
  case Nil
  then show ?case by simp
next
  case (Cons fname rest)
  from Cons.prems obtain dat v blob fs1 i es1 where
    s: "store sha1 zc (path_join (git_path r) [ascii ''objects'']) (random_choices env k)
          (new_Blob dat) fs = Inr (v, blob, fs1)" and
    r: "store_files sha1 zc env (path_join (git_path r) [ascii ''objects'']) (Suc k) rest fs1
          = Inr (es1, fs')"
    by (auto simp del: path_join.simps split: sum.splits prod.splits)
  show ?case using Cons.IH [OF r] store_keeps_head [OF s] by simp
qed

lemma append_head_effect:
  assumes "append_head p i fs = Inr fs'"
  shows "\<exists>b. encode i = Inr b \<and>
           file_content fs' p = Some ((case file_content fs p of None \<Rightarrow> [] | Some c \<Rightarrow> c) @ b)"
proof -
  from assms obtain fs1 b where o: "os_open_append fs p = Inr fs1"
    and e: "encode i = Inr b" and w: "fs' = os_write fs1 p b"
    by (auto simp: append_head_def split: sum.splits)
  have c: "file_content fs1 p = Some (case file_content fs p of None \<Rightarrow> [] | Some c \<Rightarrow> c)"
    using os_open_append_effect [OF o, of p] by simp
  show ?thesis using os_write_effect [OF c, of b p] w e by simp
qed

lemma commit_Inr:
  assumes "commit sha1 zc env fs = Inr (fs', out)"
  obtains names es fsA v1 tree_ob fsB name email tree_id v2 commit_ob fsC cid where
    "store_files sha1 zc env (path_join (git_path (cwd env)) [ascii ''objects'']) 0 names fs
       = Inr (es, fsA)"
    "store sha1 zc (path_join (git_path (cwd env)) [ascii ''objects''])
       (random_choices env (length names)) (new_Tree es) fsA = Inr (v1, tree_ob, fsB)"
    "environ_get env (ascii ''GIT_AUTHOR_NAME'') = Inr name"
    "environ_get env (ascii ''GIT_AUTHOR_EMAIL'') = Inr email"
    "get_id tree_ob = Inr tree_id"
    "store sha1 zc (path_join (git_path (cwd env)) [ascii ''objects''])
       (random_choices env (Suc (length names)))
       (new_Commit tree_id
          \<lparr>Author_name = name, Author_email = email, Author_time = now env\<rparr>
          (stdin_line env)) fsB = Inr (v2, commit_ob, fsC)"
    "get_id commit_ob = Inr cid"
    "append_head (path_join (git_path (cwd env)) [ascii ''HEAD'']) cid fsC = Inr fs'"
    "out = ascii ''[(root-commit) '' @ cid @ ascii ''] '' @ stdin_line env @ [10]"
  using assms unfolding commit_def Let_def git_path_def
  by (auto simp del: path_join.simps split: sum.splits prod.splits)

lemma commit_head_step:
  assumes "commit sha1 zc env fs = Inr (fs', out)"
  shows "\<exists>tree_id name email dat cid.
           environ_get env (ascii ''GIT_AUTHOR_NAME'') = Inr name \<and>
           environ_get env (ascii ''GIT_AUTHOR_EMAIL'') = Inr email \<and>
           Commit_serialize tree_id
              \<lparr>Author_name = name, Author_email = email, Author_time = now env\<rparr>
              (stdin_line env) = Inr dat \<and>
           cid = hexdigest (sha1 (frame ''commit'' dat)) \<and>
           file_content fs' (path_join (git_path (cwd env)) [ascii ''HEAD'']) =
             Some ((case file_content fs (path_join (git_path (cwd env)) [ascii ''HEAD'']) of
                      None \<Rightarrow> [] | Some old \<Rightarrow> old) @ hexchars (sha1 (frame ''commit'' dat))) \<and>
           out = ascii ''[(root-commit) '' @ cid @ ascii ''] '' @ stdin_line env @ [10]"
proof -
  let ?head = "path_join (git_path (cwd env)) [ascii ''HEAD'']"
  from assms obtain names es fsA v1 tree_ob fsB name email tree_id v2 commit_ob fsC cid where
    sf: "store_files sha1 zc env (path_join (git_path (cwd env)) [ascii ''objects'']) 0 names fs
       = Inr (es, fsA)" and
    st: "store sha1 zc (path_join (git_path (cwd env)) [ascii ''objects''])
       (random_choices env (length names)) (new_Tree es) fsA = Inr (v1, tree_ob, fsB)" and
    n: "environ_get env (ascii ''GIT_AUTHOR_NAME'') = Inr name" and
    e: "environ_get env (ascii ''GIT_AUTHOR_EMAIL'') = Inr email" and
    sc: "store sha1 zc (path_join (git_path (cwd env)) [ascii ''objects''])
       (random_choices env (Suc (length names)))
       (new_Commit tree_id
          \<lparr>Author_name = name, Author_email = email, Author_time = now env\<rparr>
          (stdin_line env)) fsB = Inr (v2, commit_ob, fsC)" and
    gi: "get_id commit_ob = Inr cid" and
    ah: "append_head ?head cid fsC = Inr fs'" and
    o: "out = ascii ''[(root-commit) '' @ cid @ ascii ''] '' @ stdin_line env @ [10]"
    by (rule commit_Inr)
  have k: "file_content fsC ?head = file_content fs ?head"
    using store_files_keeps_head [OF sf] store_keeps_head [OF st] store_keeps_head [OF sc]
    by simp
  from store_result [OF sc] gi obtain dat where
    d: "Commit_serialize tree_id
              \<lparr>Author_name = name, Author_email = email, Author_time = now env\<rparr>
              (stdin_line env) = Inr dat" and
    c: "cid = hexdigest (sha1 (frame ''commit'' dat))"
    by (auto simp: new_Commit_def get_id_def)
  have "encode cid = Inr (hexchars (sha1 (frame ''commit'' dat)))"
    unfolding c by (rule encode_hexdigest)
  then have h: "file_content fs' ?head =
             Some ((case file_content fs ?head of None \<Rightarrow> [] | Some old \<Rightarrow> old) @
                   hexchars (sha1 (frame ''commit'' dat)))"
    using append_head_effect [OF ah] k by auto
  show ?thesis using n e d c h o by blast
qed

subsection \<open>The id is appended\<close>

text \<open>
  C10. After a commit that succeeds, \<open>HEAD\<close> holds what it held before (nothing, when it
  did not exist) followed by the id of the commit object and nothing else: the id is the
  hexadecimal digest of the frame of the commit, only hexadecimal digits (written as the
  bytes of these digits), and it is the id printed. After a second commit in the same
  directory \<open>HEAD\<close> holds the old content, the first id and the second id, with nothing
  between them.
\<close>

theorem commit_appends_head:
  assumes "commit sha1 zc env fs = Inr (fs1, out1)"
  shows "\<exists>tree_id name email dat cid idb.
           environ_get env (ascii ''GIT_AUTHOR_NAME'') = Inr name \<and>
           environ_get env (ascii ''GIT_AUTHOR_EMAIL'') = Inr email \<and>
           Commit_serialize tree_id
              \<lparr>Author_name = name, Author_email = email, Author_time = now env\<rparr>
              (stdin_line env) = Inr dat \<and>
           cid = hexdigest (sha1 (frame ''commit'' dat)) \<and>
           cid = ascii idb \<and>
           set idb \<subseteq> set ''0123456789abcdef'' \<and>
           out1 = ascii ''[(root-commit) '' @ cid @ ascii ''] '' @ stdin_line env @ [10] \<and>
           file_content fs1 (path_join (path_join (cwd env) [ascii ''.git'']) [ascii ''HEAD'']) =
             Some ((case file_content fs
                          (path_join (path_join (cwd env) [ascii ''.git'']) [ascii ''HEAD'']) of
                      None \<Rightarrow> [] | Some old \<Rightarrow> old) @ idb) \<and>
           (\<forall>env2 fs2 out2.
              cwd env2 = cwd env \<and> commit sha1 zc env2 fs1 = Inr (fs2, out2) \<longrightarrow>
              (\<exists>cid2 idb2.
                 out2 = ascii ''[(root-commit) '' @ cid2 @ ascii ''] '' @ stdin_line env2 @ [10] \<and>
                 cid2 = ascii idb2 \<and>
                 set idb2 \<subseteq> set ''0123456789abcdef'' \<and>
                 file_content fs2 (path_join (path_join (cwd env) [ascii ''.git'']) [ascii ''HEAD'']) =
                   Some ((case file_content fs
                                (path_join (path_join (cwd env) [ascii ''.git'']) [ascii ''HEAD'']) of
                            None \<Rightarrow> [] | Some old \<Rightarrow> old) @ idb @ idb2)))"
proof -
  let ?head = "path_join (git_path (cwd env)) [ascii ''HEAD'']"
  let ?old = "case file_content fs ?head of None \<Rightarrow> [] | Some old \<Rightarrow> old"
  from commit_head_step [OF assms] obtain tree_id name email dat cid where
    n: "environ_get env (ascii ''GIT_AUTHOR_NAME'') = Inr name" and
    e: "environ_get env (ascii ''GIT_AUTHOR_EMAIL'') = Inr email" and
    d: "Commit_serialize tree_id
              \<lparr>Author_name = name, Author_email = email, Author_time = now env\<rparr>
              (stdin_line env) = Inr dat" and
    c: "cid = hexdigest (sha1 (frame ''commit'' dat))" and
    h: "file_content fs1 ?head = Some (?old @ hexchars (sha1 (frame ''commit'' dat)))" and
    o: "out1 = ascii ''[(root-commit) '' @ cid @ ascii ''] '' @ stdin_line env @ [10]"
    by blast
  let ?idb = "hexchars (sha1 (frame ''commit'' dat))"
  have a: "cid = ascii ?idb" using c by (simp add: hexdigest_def)
  have x: "set ?idb \<subseteq> set ''0123456789abcdef''" by (rule hexchars_lower)
  have two: "\<forall>env2 fs2 out2.
              cwd env2 = cwd env \<and> commit sha1 zc env2 fs1 = Inr (fs2, out2) \<longrightarrow>
              (\<exists>cid2 idb2.
                 out2 = ascii ''[(root-commit) '' @ cid2 @ ascii ''] '' @ stdin_line env2 @ [10] \<and>
                 cid2 = ascii idb2 \<and>
                 set idb2 \<subseteq> set ''0123456789abcdef'' \<and>
                 file_content fs2 ?head = Some (?old @ ?idb @ idb2))"
  proof (intro allI impI)
    fix env2 fs2 out2
    assume as: "cwd env2 = cwd env \<and> commit sha1 zc env2 fs1 = Inr (fs2, out2)"
    then have c2: "commit sha1 zc env2 fs1 = Inr (fs2, out2)" by simp
    from commit_head_step [OF c2] obtain t2 n2 e2 dat2 cid2 where
      cc: "cid2 = hexdigest (sha1 (frame ''commit'' dat2))" and
      hh: "file_content fs2 (path_join (git_path (cwd env2)) [ascii ''HEAD'']) =
             Some ((case file_content fs1 (path_join (git_path (cwd env2)) [ascii ''HEAD'']) of
                      None \<Rightarrow> [] | Some old \<Rightarrow> old) @ hexchars (sha1 (frame ''commit'' dat2)))" and
      oo: "out2 = ascii ''[(root-commit) '' @ cid2 @ ascii ''] '' @ stdin_line env2 @ [10]"
      by blast
    let ?idb2 = "hexchars (sha1 (frame ''commit'' dat2))"
    have aa: "cid2 = ascii ?idb2" using cc by (simp add: hexdigest_def)
    have xx: "set ?idb2 \<subseteq> set ''0123456789abcdef''" by (rule hexchars_lower)
    have "file_content fs2 ?head = Some (?old @ ?idb @ ?idb2)"
      using hh h as by simp
    then show "\<exists>cid2 idb2.
                 out2 = ascii ''[(root-commit) '' @ cid2 @ ascii ''] '' @ stdin_line env2 @ [10] \<and>
                 cid2 = ascii idb2 \<and>
                 set idb2 \<subseteq> set ''0123456789abcdef'' \<and>
                 file_content fs2 ?head = Some (?old @ ?idb @ idb2)"
      using oo aa xx by blast
  qed
  show ?thesis
    unfolding git_path_def [symmetric]
    using n e d c a x o h two by blast
qed

theorem commit_appends_head_witness:
  "\<exists>fs1 out1 fs2 out2 idb idb2.
     commit example_sha1 (\<lambda>b. b) example_env example_fs = Inr (fs1, out1) \<and>
     commit example_sha1 (\<lambda>b. b) (example_env\<lparr>stdin_line := ascii ''second'' @ [10]\<rparr>) fs1
       = Inr (fs2, out2) \<and>
     file_content example_fs (ascii ''/r/.git/HEAD'') = None \<and>
     out1 = ascii ''[(root-commit) '' @ ascii idb @ ascii ''] init'' @ [10, 10] \<and>
     out2 = ascii ''[(root-commit) '' @ ascii idb2 @ ascii ''] second'' @ [10, 10] \<and>
     file_content fs1 (ascii ''/r/.git/HEAD'') = Some idb \<and>
     file_content fs2 (ascii ''/r/.git/HEAD'') = Some (idb @ idb2)"
proof -
  let ?env2 = "example_env\<lparr>stdin_line := ascii ''second'' @ [10]\<rparr>"
  have "isl (commit example_sha1 (\<lambda>b. b) example_env example_fs) = False" by code_simp
  then obtain fs1 out1 where
    c1: "commit example_sha1 (\<lambda>b. b) example_env example_fs = Inr (fs1, out1)"
    by (cases "commit example_sha1 (\<lambda>b. b) example_env example_fs") auto
  have "isl (commit example_sha1 (\<lambda>b. b) ?env2
          (fst (projr (commit example_sha1 (\<lambda>b. b) example_env example_fs)))) = False"
    by code_simp
  then have "isl (commit example_sha1 (\<lambda>b. b) ?env2 fs1) = False" using c1 by simp
  then obtain fs2 out2 where
    c2: "commit example_sha1 (\<lambda>b. b) ?env2 fs1 = Inr (fs2, out2)"
    by (cases "commit example_sha1 (\<lambda>b. b) ?env2 fs1") auto
  have hp: "path_join (path_join (cwd example_env) [ascii ''.git'']) [ascii ''HEAD'']
              = ascii ''/r/.git/HEAD''"
    by code_simp
  have none: "file_content example_fs (ascii ''/r/.git/HEAD'') = None" by code_simp
  have l1: "stdin_line example_env = ascii ''init'' @ [10]" by (simp add: example_env_def)
  have l2: "stdin_line ?env2 = ascii ''second'' @ [10]" "cwd ?env2 = cwd example_env" by simp_all
  from commit_appends_head [OF c1, unfolded hp none] obtain idb where
    o1: "out1 = ascii ''[(root-commit) '' @ ascii idb @ ascii ''] '' @ stdin_line example_env @ [10]" and
    h1: "file_content fs1 (ascii ''/r/.git/HEAD'') = Some idb" and
    two: "\<forall>env2 fs2 out2.
              cwd env2 = cwd example_env \<and>
              commit example_sha1 (\<lambda>b. b) env2 fs1 = Inr (fs2, out2) \<longrightarrow>
              (\<exists>cid2 idb2.
                 out2 = ascii ''[(root-commit) '' @ cid2 @ ascii ''] '' @ stdin_line env2 @ [10] \<and>
                 cid2 = ascii idb2 \<and>
                 set idb2 \<subseteq> set ''0123456789abcdef'' \<and>
                 file_content fs2 (ascii ''/r/.git/HEAD'') = Some (idb @ idb2))"
    by auto
  from two l2(2) c2 obtain idb2 where
    o2: "out2 = ascii ''[(root-commit) '' @ ascii idb2 @ ascii ''] '' @ stdin_line ?env2 @ [10]" and
    h2: "file_content fs2 (ascii ''/r/.git/HEAD'') = Some (idb @ idb2)"
    by blast
  have o1': "out1 = ascii ''[(root-commit) '' @ ascii idb @ ascii ''] init'' @ [10, 10]"
    using o1 l1 by (simp add: ascii_def)
  have o2': "out2 = ascii ''[(root-commit) '' @ ascii idb2 @ ascii ''] second'' @ [10, 10]"
    using o2 l2(1) by (simp add: ascii_def)
  show ?thesis using c1 c2 none o1' o2' h1 h2 by blast
qed

end
